theory Spec2Isabelle
  imports Complex_Main
begin

section \<open>JavaScript values used by the record codec\<close>

text \<open>
  Strings are lists of code units; a \<^typ>\<open>char\<close> stands for a code unit in the range
  0..255. The three characters the codec treats specially are named here.
\<close>

abbreviation quoteChar :: char where "quoteChar \<equiv> CHR 0x22"
abbreviation commaChar :: char where "commaChar \<equiv> CHR '',''"
abbreviation newlineChar :: char where "newlineChar \<equiv> CHR 0x0A"

text \<open>
  \<^verbatim>\<open>String.prototype.trim\<close> removes white space and line terminators from both ends.
  In the range 0..255 these are TAB, LF, VT, FF, CR, SPACE and NBSP.
\<close>

definition isWhitespace :: "char \<Rightarrow> bool" where
  "isWhitespace c \<longleftrightarrow>
     c \<in> set [CHR 0x09, CHR 0x0A, CHR 0x0B, CHR 0x0C, CHR 0x0D, CHR 0x20, CHR 0xA0]"

definition trim :: "string \<Rightarrow> string" where
  "trim s = rev (dropWhile isWhitespace (rev (dropWhile isWhitespace s)))"

text \<open>\<^verbatim>\<open>s.split(c)\<close> for a one-character separator: never empty, \<^verbatim>\<open>''.split(c)\<close> is \<^verbatim>\<open>['']\<close>.\<close>

fun splitOn :: "char \<Rightarrow> string \<Rightarrow> string list" where
  "splitOn c [] = [[]]"
| "splitOn c (x # xs) =
     (if x = c then [] # splitOn c xs
      else (case splitOn c xs of [] \<Rightarrow> [[x]] | y # ys \<Rightarrow> (x # y) # ys))"

text \<open>\<^verbatim>\<open>xs.join(sep)\<close> on an array of strings.\<close>

fun joinWith :: "string \<Rightarrow> string list \<Rightarrow> string" where
  "joinWith sep [] = []"
| "joinWith sep [x] = x"
| "joinWith sep (x # y # ys) = x @ sep @ joinWith sep (y # ys)"

text \<open>
  The values a record field can hold: a string, a number, \<^verbatim>\<open>null\<close> or \<^verbatim>\<open>undefined\<close>.
  The type \<^typ>\<open>'n\<close> of numbers is a parameter, and so are the two built-in conversions the
  codec applies to numbers: \<^verbatim>\<open>numToString\<close> (the \<^verbatim>\<open>ToString\<close> that \<^verbatim>\<open>Array.prototype.join\<close>
  applies to a number) and \<^verbatim>\<open>parseFloat\<close>.
\<close>

datatype 'n jsval = JStr string | JNum 'n | JNull | JUndefined

text \<open>
  An object is the list of its own properties in insertion order, which is the order
  \<^verbatim>\<open>Object.keys\<close> reports for keys that are not array indices (an object lists keys such
  as \<^verbatim>\<open>1\<close> and \<^verbatim>\<open>2\<close> first, in ascending order; the order of such keys is not modelled, and
  no statement below depends on it: the decoder's records are described by their
  properties, read with \<open>objGet\<close>, and the round trip is over the keys of
  \<^verbatim>\<open>EnrollmentRecord\<close>). \<^verbatim>\<open>obj[k]\<close> of a missing key is \<^verbatim>\<open>undefined\<close>; \<^verbatim>\<open>obj[k] = v\<close>
  overwrites in place or appends.
\<close>

type_synonym 'n jsobj = "(string \<times> 'n jsval) list"

definition objectKeys :: "'n jsobj \<Rightarrow> string list" where
  "objectKeys obj = map fst obj"

definition objGet :: "'n jsobj \<Rightarrow> string \<Rightarrow> 'n jsval" where
  "objGet obj k = (case map_of obj k of Some v \<Rightarrow> v | None \<Rightarrow> JUndefined)"

fun objSet :: "string \<Rightarrow> 'n jsval \<Rightarrow> 'n jsobj \<Rightarrow> 'n jsobj" where
  "objSet k v [] = [(k, v)]"
| "objSet k v (p # ps) = (if fst p = k then (k, v) # ps else p # objSet k v ps)"

section \<open>Encoding: \<^verbatim>\<open>recordsToCSV\<close>\<close>

text \<open>\<^verbatim>\<open>value.replace(/"/g, '""')\<close>\<close>

fun replaceQuotes :: "string \<Rightarrow> string" where
  "replaceQuotes [] = []"
| "replaceQuotes (c # cs) =
     (if c = quoteChar then quoteChar # quoteChar # replaceQuotes cs
      else c # replaceQuotes cs)"

text \<open>
  The callback of \<^verbatim>\<open>headers.map\<close>: a string with a comma or a quote is wrapped in quotes
  with its quotes doubled; anything else is returned as \<^verbatim>\<open>value ?? ''\<close>.
\<close>

definition escapeValue :: "'n jsval \<Rightarrow> 'n jsval" where
  "escapeValue v =
     (case v of
        JStr s \<Rightarrow>
          if commaChar \<in> set s \<or> quoteChar \<in> set s
          then JStr (quoteChar # replaceQuotes s @ [quoteChar])
          else JStr s
      | JNum n \<Rightarrow> JNum n
      | JNull \<Rightarrow> JStr []
      | JUndefined \<Rightarrow> JStr [])"

text \<open>The conversion \<^verbatim>\<open>join\<close> applies to each element of the array.\<close>

definition joinElem :: "('n \<Rightarrow> string) \<Rightarrow> 'n jsval \<Rightarrow> string" where
  "joinElem numToString v =
     (case v of JStr s \<Rightarrow> s | JNum n \<Rightarrow> numToString n | JNull \<Rightarrow> [] | JUndefined \<Rightarrow> [])"

definition encodeRow :: "('n \<Rightarrow> string) \<Rightarrow> string list \<Rightarrow> 'n jsobj \<Rightarrow> string" where
  "encodeRow numToString headers record =
     joinWith [commaChar]
       (map (\<lambda>header. joinElem numToString (escapeValue (objGet record header))) headers)"

definition recordsToCSV :: "('n \<Rightarrow> string) \<Rightarrow> 'n jsobj list \<Rightarrow> string" where
  "recordsToCSV numToString records =
     (case records of
        [] \<Rightarrow> []
      | firstRecord # _ \<Rightarrow>
          let headers = objectKeys firstRecord;
              csvRows = joinWith [commaChar] headers # map (encodeRow numToString headers) records
          in joinWith [newlineChar] csvRows)"

section \<open>Decoding: \<^verbatim>\<open>parseCSVLine\<close> and \<^verbatim>\<open>parseCSVToRecords\<close>\<close>

text \<open>
  The \<^verbatim>\<open>for\<close> loop of \<^verbatim>\<open>parseCSVLine\<close> over the rest of the line, with its three
  variables. \<^verbatim>\<open>line[i + 1]\<close> past the end is \<^verbatim>\<open>undefined\<close>, which is not a quote.
\<close>

fun parseCSVLine_loop :: "string \<Rightarrow> string list \<Rightarrow> string \<Rightarrow> bool \<Rightarrow> string list" where
  "parseCSVLine_loop [] result current inQuotes = result @ [current]"
| "parseCSVLine_loop (c # cs) result current inQuotes =
    (if c = quoteChar then
       (if inQuotes \<and> cs \<noteq> [] \<and> hd cs = quoteChar
        then parseCSVLine_loop (tl cs) result (current @ [quoteChar]) inQuotes
        else parseCSVLine_loop cs result current (\<not> inQuotes))
     else if c = commaChar \<and> \<not> inQuotes
       then parseCSVLine_loop cs (result @ [current]) [] inQuotes
     else parseCSVLine_loop cs result (current @ [c]) inQuotes)"

definition parseCSVLine :: "string \<Rightarrow> string list" where
  "parseCSVLine line = parseCSVLine_loop line [] [] False"

text \<open>
  The own properties of the table \<^verbatim>\<open>headerMap\<close> from column labels to field names, and the
  list of numeric fields.
\<close>

definition headerMap :: "string \<Rightarrow> string option" where
  "headerMap = map_of
     [(''Term'', ''term''),
      (''Subject'', ''subject''),
      (''Course'', ''course''),
      (''CRN'', ''crn''),
      (''Section'', ''section''),
      (''Start Time'', ''startTime''),
      (''End Time'', ''endTime''),
      (''Days'', ''days''),
      (''Building'', ''building''),
      (''Room'', ''room''),
      (''Primary Instructor(s)'', ''primaryInstructors''),
      (''Additional Instructor(s)'', ''additionalInstructors''),
      (''Enrollment Actual'', ''enrollmentActual''),
      (''Enrollment Maximum'', ''enrollmentMaximum''),
      (''Enrollment Seats Available'', ''enrollmentSeatsAvailable''),
      (''Waitlist Capacity'', ''waitlistCapacity''),
      (''Waitlist Actual'', ''waitlistActual''),
      (''Waitlist Seats Available'', ''waitlistSeatsAvailable''),
      (''Building Code'', ''buildingCode''),
      (''Room Capacity'', ''roomCapacity''),
      (''Loss'', ''loss'')]"

definition numericFields :: "string list" where
  "numericFields =
     [''enrollmentActual'', ''enrollmentMaximum'', ''enrollmentSeatsAvailable'',
      ''waitlistCapacity'', ''waitlistActual'', ''waitlistSeatsAvailable'',
      ''roomCapacity'', ''loss'']"

text \<open>
  \<^verbatim>\<open>headerMap\<close> is an object literal, so \<^verbatim>\<open>headerMap[header]\<close> also finds the members every
  object inherits from \<^verbatim>\<open>Object.prototype\<close>: eleven functions and, for \<^verbatim>\<open>__proto__\<close>, the
  prototype itself. All of them are truthy, none of them is one of the numeric field names,
  and \<^verbatim>\<open>record[fieldName] = ...\<close> turns such a member into a property key by its string
  form. \<open>inheritedKey\<close> gives that key, the functions printed the way V8 prints a built-in
  function.
\<close>

definition inheritedKey :: "string \<Rightarrow> string option" where
  "inheritedKey = map_of
     [(''constructor'', ''function Object() { [native code] }''),
      (''__defineGetter__'', ''function __defineGetter__() { [native code] }''),
      (''__defineSetter__'', ''function __defineSetter__() { [native code] }''),
      (''hasOwnProperty'', ''function hasOwnProperty() { [native code] }''),
      (''__lookupGetter__'', ''function __lookupGetter__() { [native code] }''),
      (''__lookupSetter__'', ''function __lookupSetter__() { [native code] }''),
      (''isPrototypeOf'', ''function isPrototypeOf() { [native code] }''),
      (''propertyIsEnumerable'', ''function propertyIsEnumerable() { [native code] }''),
      (''toString'', ''function toString() { [native code] }''),
      (''valueOf'', ''function valueOf() { [native code] }''),
      (''__proto__'', ''[object Object]''),
      (''toLocaleString'', ''function toLocaleString() { [native code] }'')]"

text \<open>
  The property key that \<^verbatim>\<open>headerMap[header] || header\<close> stands for: the field name of the
  table (every value of the table is a non-empty string), else the key of an inherited
  member, else the header itself.
\<close>

definition fieldNameOf :: "string \<Rightarrow> string" where
  "fieldNameOf header =
     (case headerMap header of
        Some f \<Rightarrow> f
      | None \<Rightarrow> (case inheritedKey header of Some key \<Rightarrow> key | None \<Rightarrow> header))"

text \<open>
  The value stored for one column. \<^verbatim>\<open>values[index]?.trim()\<close> is \<^verbatim>\<open>undefined\<close> when the
  index is out of range; an empty or undefined value is falsy.
\<close>

definition fieldValue :: "(string \<Rightarrow> 'n) \<Rightarrow> string \<Rightarrow> string option \<Rightarrow> 'n jsval" where
  "fieldValue parseFloat fieldName value =
     (if fieldName \<in> set numericFields
      then (case value of
              Some v \<Rightarrow> if v \<noteq> [] then JNum (parseFloat v) else JNull
            | None \<Rightarrow> JNull)
      else (case value of
              Some v \<Rightarrow> JStr v
            | None \<Rightarrow> JStr []))"

definition setField ::
  "(string \<Rightarrow> 'n) \<Rightarrow> string list \<Rightarrow> string \<Rightarrow> nat \<Rightarrow> 'n jsobj \<Rightarrow> 'n jsobj" where
  "setField parseFloat values header index record =
     (let value = (if index < length values then Some (trim (values ! index)) else None);
          fieldName = fieldNameOf header
      in objSet fieldName (fieldValue parseFloat fieldName value) record)"

text \<open>\<^verbatim>\<open>headers.forEach((header, index) => ...)\<close> from a given index on.\<close>

fun forEachHeader ::
  "(string \<Rightarrow> 'n) \<Rightarrow> string list \<Rightarrow> nat \<Rightarrow> string list \<Rightarrow> 'n jsobj \<Rightarrow> 'n jsobj" where
  "forEachHeader parseFloat values index [] record = record"
| "forEachHeader parseFloat values index (header # rest) record =
     forEachHeader parseFloat values (Suc index) rest
       (setField parseFloat values header index record)"

definition decodeRow :: "(string \<Rightarrow> 'n) \<Rightarrow> string list \<Rightarrow> string list \<Rightarrow> 'n jsobj" where
  "decodeRow parseFloat headers values = forEachHeader parseFloat values 0 headers []"

text \<open>The loop over \<^verbatim>\<open>lines[1..]\<close> with its two \<^verbatim>\<open>continue\<close> statements.\<close>

fun rowsLoop ::
  "(string \<Rightarrow> 'n) \<Rightarrow> string list \<Rightarrow> string list \<Rightarrow> 'n jsobj list \<Rightarrow> 'n jsobj list" where
  "rowsLoop parseFloat headers [] records = records"
| "rowsLoop parseFloat headers (line # rest) records =
     (if line = [] then rowsLoop parseFloat headers rest records
      else
        let values = parseCSVLine line in
        if length values \<noteq> length headers then rowsLoop parseFloat headers rest records
        else rowsLoop parseFloat headers rest (records @ [decodeRow parseFloat headers values]))"

definition parseCSVToRecords :: "(string \<Rightarrow> 'n) \<Rightarrow> string \<Rightarrow> 'n jsobj list" where
  "parseCSVToRecords parseFloat csvData =
     (let lines = splitOn newlineChar (trim csvData) in
      if length lines < 2 \<or> hd lines = [] then []
      else
        let headers = map trim (splitOn commaChar (hd lines))
        in rowsLoop parseFloat headers (tl lines) [])"

section \<open>The record type and a concrete instance of the numbers\<close>

text \<open>
  The interface \<^verbatim>\<open>EnrollmentRecord\<close>. The fields \<^verbatim>\<open>term\<close> and \<^verbatim>\<open>section\<close> carry a
  suffix here; \<open>toObject\<close> gives the object with the properties in the order of the
  interface.
\<close>

record 'n EnrollmentRecord =
  term_field :: string
  subject :: string
  course :: string
  crn :: string
  section_field :: string
  startTime :: string
  endTime :: string
  days :: string
  building :: string
  room :: string
  primaryInstructors :: string
  additionalInstructors :: string
  enrollmentActual :: "'n option"
  enrollmentMaximum :: "'n option"
  enrollmentSeatsAvailable :: "'n option"
  waitlistCapacity :: "'n option"
  waitlistActual :: "'n option"
  waitlistSeatsAvailable :: "'n option"
  buildingCode :: string
  roomCapacity :: "'n option"
  loss :: "'n option"

definition numberOrNull :: "'n option \<Rightarrow> 'n jsval" where
  "numberOrNull x = (case x of Some n \<Rightarrow> JNum n | None \<Rightarrow> JNull)"

definition toObject :: "'n EnrollmentRecord \<Rightarrow> 'n jsobj" where
  "toObject r =
     [(''term'', JStr (term_field r)),
      (''subject'', JStr (subject r)),
      (''course'', JStr (course r)),
      (''crn'', JStr (crn r)),
      (''section'', JStr (section_field r)),
      (''startTime'', JStr (startTime r)),
      (''endTime'', JStr (endTime r)),
      (''days'', JStr (days r)),
      (''building'', JStr (building r)),
      (''room'', JStr (room r)),
      (''primaryInstructors'', JStr (primaryInstructors r)),
      (''additionalInstructors'', JStr (additionalInstructors r)),
      (''enrollmentActual'', numberOrNull (enrollmentActual r)),
      (''enrollmentMaximum'', numberOrNull (enrollmentMaximum r)),
      (''enrollmentSeatsAvailable'', numberOrNull (enrollmentSeatsAvailable r)),
      (''waitlistCapacity'', numberOrNull (waitlistCapacity r)),
      (''waitlistActual'', numberOrNull (waitlistActual r)),
      (''waitlistSeatsAvailable'', numberOrNull (waitlistSeatsAvailable r)),
      (''buildingCode'', JStr (buildingCode r)),
      (''roomCapacity'', numberOrNull (roomCapacity r)),
      (''loss'', numberOrNull (loss r))]"

text \<open>
  A concrete instance of the numbers for closed examples: the integers and \<^verbatim>\<open>NaN\<close>,
  printed in decimal. \<open>parseFloat_int\<close> skips leading white space, reads an optional sign
  and the longest run of digits, and gives \<^verbatim>\<open>NaN\<close> when there is no digit; it agrees with
  \<^verbatim>\<open>parseFloat\<close> on every string whose numeric prefix is an integer literal.
\<close>

datatype jsnum = Finite int | NaN

definition digitChar :: "nat \<Rightarrow> char" where
  "digitChar d = ''0123456789'' ! d"

fun natToString :: "nat \<Rightarrow> string" where
  "natToString n =
     (if n < 10 then [digitChar n] else natToString (n div 10) @ [digitChar (n mod 10)])"

declare natToString.simps [simp del]

definition numToString_int :: "jsnum \<Rightarrow> string" where
  "numToString_int x =
     (case x of
        NaN \<Rightarrow> ''NaN''
      | Finite i \<Rightarrow> if i < 0 then CHR ''-'' # natToString (nat (- i)) else natToString (nat i))"

definition isDigit :: "char \<Rightarrow> bool" where
  "isDigit c \<longleftrightarrow> c \<in> set ''0123456789''"

definition digitValue :: "char \<Rightarrow> nat" where
  "digitValue c = of_char c - 48"

definition parseFloat_int :: "string \<Rightarrow> jsnum" where
  "parseFloat_int s =
     (let t = dropWhile isWhitespace s;
          negative = (t \<noteq> [] \<and> hd t = CHR ''-'');
          u = (if t \<noteq> [] \<and> (hd t = CHR ''-'' \<or> hd t = CHR ''+'') then tl t else t);
          ds = takeWhile isDigit u
      in if ds = [] then NaN
         else Finite ((if negative then - 1 else 1)
                        * int (foldl (\<lambda>a d. 10 * a + digitValue d) 0 ds)))"

section \<open>The polling client: \<^verbatim>\<open>fetchEnrollmentData\<close>\<close>

text \<open>
  The repository holds two versions of the client. The first (status responses with
  \<^verbatim>\<open>job_id\<close>, \<^verbatim>\<open>csv_data\<close>, \<^verbatim>\<open>download_url\<close>, \<^verbatim>\<open>error_message\<close>) decodes CSV; the second
  (status responses with \<^verbatim>\<open>jobId\<close>, \<^verbatim>\<open>message\<close>, \<^verbatim>\<open>result\<close>) returns the embedded result.
  Names of the second version end in \<open>_2\<close>.

  An execution is modelled by its trace of effects and its outcome: \<open>Inl m\<close> is a rejection
  with \<^verbatim>\<open>new Error(m)\<close>, \<open>Inr r\<close> is the value the promise resolves to. The server is given
  by the outcome of the submission and by \<open>pollJobStatus k\<close>, the outcome of the \<open>k\<close>-th status
  read (\<open>Inl\<close> when the read throws). The \<^verbatim>\<open>catch\<close> block logs and rethrows, so it does not
  change the outcome. \<open>onProgress\<close> tells whether a callback was passed.
\<close>

definition POLL_INTERVAL_MS :: nat where
  "POLL_INTERVAL_MS = 2000"

definition MAX_POLL_ATTEMPTS :: nat where
  "MAX_POLL_ATTEMPTS = 150"

datatype jobStatus = Pending | Processing | Completed | Failed

datatype event = Submit | Sleep nat | StatusRead string | Progress real string | Download string

definition timeoutMessage :: string where
  "timeoutMessage =
     ''Request timed out. Please try again with fewer terms or a more specific filter.''"

text \<open>\<^verbatim>\<open>onProgress?.(progress, message)\<close>\<close>

definition callProgress :: "bool \<Rightarrow> real \<Rightarrow> string \<Rightarrow> event list \<Rightarrow> event list" where
  "callProgress onProgress p m trace = (if onProgress then trace @ [Progress p m] else trace)"

definition elapsedMessage :: "nat \<Rightarrow> string" where
  "elapsedMessage attempts = ''Processing... ('' @ natToString (attempts * 2) @ ''s elapsed)''"

text \<open>\<^verbatim>\<open>x || d\<close> for an optional string: an absent or empty string is falsy.\<close>

definition orElse :: "string option \<Rightarrow> string \<Rightarrow> string" where
  "orElse x d = (case x of Some s \<Rightarrow> if s \<noteq> [] then s else d | None \<Rightarrow> d)"

subsection \<open>First version\<close>

record JobSubmitResponse =
  submit_job_id :: "string option"
  submit_status :: jobStatus
  submit_message :: "string option"

record JobStatusResponse =
  job_id :: "string option"
  status :: jobStatus
  progress :: "real option"
  csv_data :: "string option"
  download_url :: "string option"
  error_message :: "string option"

record 'n EnrollmentResponse =
  success :: bool
  data :: "'n jsobj list"
  fileName :: string
  message :: string

text \<open>\<^verbatim>\<open>let progress = statusResponse.progress || 0; if (progress === 0) progress = 10;\<close>\<close>

definition shownProgress :: "JobStatusResponse \<Rightarrow> real" where
  "shownProgress statusResponse =
     (let p = (case progress statusResponse of Some x \<Rightarrow> if x \<noteq> 0 then x else 0 | None \<Rightarrow> 0)
      in if p = 0 then 10 else p)"

text \<open>
  The branch for \<^verbatim>\<open>completed\<close>, after the callback. \<open>fetchUrl u\<close> is the outcome of
  \<^verbatim>\<open>fetch(u)\<close>: \<open>Inl\<close> when it throws, otherwise \<^verbatim>\<open>ok\<close> and the body text.
\<close>

definition completedResult ::
  "(string \<Rightarrow> 'n) \<Rightarrow> (string \<Rightarrow> string + bool \<times> string) \<Rightarrow> JobStatusResponse \<Rightarrow> event list
     \<Rightarrow> event list \<times> (string + 'n EnrollmentResponse)" where
  "completedResult parseFloat fetchUrl statusResponse trace =
     (if csv_data statusResponse \<noteq> None \<and> csv_data statusResponse \<noteq> Some [] then
        (trace,
         Inr \<lparr>success = True,
              data = parseCSVToRecords parseFloat (the (csv_data statusResponse)),
              fileName = ''enrollment_data.csv'',
              message = ''Data retrieved successfully''\<rparr>)
      else if download_url statusResponse \<noteq> None \<and> download_url statusResponse \<noteq> Some [] then
        (case fetchUrl (the (download_url statusResponse)) of
           Inl e \<Rightarrow> (trace @ [Download (the (download_url statusResponse))], Inl e)
         | Inr (ok, csvData) \<Rightarrow>
             if \<not> ok then
               (trace @ [Download (the (download_url statusResponse))],
                Inl ''Failed to download CSV file'')
             else
               (trace @ [Download (the (download_url statusResponse))],
                Inr \<lparr>success = True,
                     data = parseCSVToRecords parseFloat csvData,
                     fileName = ''enrollment_data.csv'',
                     message = ''Data downloaded successfully''\<rparr>))
      else (trace, Inl ''Job completed but no data returned''))"

function pollLoop ::
  "(string \<Rightarrow> 'n) \<Rightarrow> bool \<Rightarrow> (nat \<Rightarrow> string + JobStatusResponse) \<Rightarrow>
   (string \<Rightarrow> string + bool \<times> string) \<Rightarrow> string \<Rightarrow> nat \<Rightarrow> event list \<Rightarrow>
   event list \<times> (string + 'n EnrollmentResponse)" where
  "pollLoop parseFloat onProgress pollJobStatus fetchUrl jobId attempts trace =
     (if attempts < MAX_POLL_ATTEMPTS then
        (case pollJobStatus (attempts + 1) of
           Inl e \<Rightarrow> (trace @ [Sleep POLL_INTERVAL_MS, StatusRead jobId], Inl e)
         | Inr statusResponse \<Rightarrow>
             let trace1 = callProgress onProgress (shownProgress statusResponse)
                            (elapsedMessage (attempts + 1))
                            (trace @ [Sleep POLL_INTERVAL_MS, StatusRead jobId])
             in if status statusResponse = Completed then
                  completedResult parseFloat fetchUrl statusResponse
                    (callProgress onProgress 100 ''Complete!'' trace1)
                else if status statusResponse = Failed then
                  (trace1, Inl (orElse (error_message statusResponse) ''Job failed''))
                else pollLoop parseFloat onProgress pollJobStatus fetchUrl jobId
                       (attempts + 1) trace1)
      else (trace, Inl timeoutMessage))"
  by pat_completeness auto
termination
  by (relation "measure (\<lambda>(parseFloat, onProgress, pollJobStatus, fetchUrl, jobId, attempts, trace).
        MAX_POLL_ATTEMPTS - attempts)") auto

declare pollLoop.simps [simp del]

definition fetchEnrollmentData ::
  "(string \<Rightarrow> 'n) \<Rightarrow> ('q \<Rightarrow> string + JobSubmitResponse) \<Rightarrow> (nat \<Rightarrow> string + JobStatusResponse) \<Rightarrow>
   (string \<Rightarrow> string + bool \<times> string) \<Rightarrow> 'q \<Rightarrow> bool \<Rightarrow>
   event list \<times> (string + 'n EnrollmentResponse)" where
  "fetchEnrollmentData parseFloat submitEnrollmentJob pollJobStatus fetchUrl request onProgress =
     (let trace0 = callProgress onProgress 0 ''Submitting request...'' [] @ [Submit] in
      case submitEnrollmentJob request of
        Inl e \<Rightarrow> (trace0, Inl e)
      | Inr submitResponse \<Rightarrow>
          if submit_job_id submitResponse = None \<or> submit_job_id submitResponse = Some [] then
            (trace0, Inl ''No job ID returned from server'')
          else
            pollLoop parseFloat onProgress pollJobStatus fetchUrl
              (the (submit_job_id submitResponse)) 0
              (callProgress onProgress 5 ''Request submitted. Processing enrollment data...''
                 trace0))"

subsection \<open>Second version\<close>

text \<open>
  \<open>embedded_2\<close> is the submit response itself when it has both a \<^verbatim>\<open>data\<close> and a
  \<^verbatim>\<open>success\<close> property (the fast path), and absent otherwise.
\<close>

record 'r JobSubmitResponse_2 =
  submit_jobId_2 :: "string option"
  submit_status_2 :: jobStatus
  submit_message_2 :: "string option"
  embedded_2 :: "'r option"

record 'r JobStatusResponse_2 =
  jobId_2 :: "string option"
  status_2 :: jobStatus
  progress_2 :: "real option"
  message_2 :: "string option"
  result_2 :: "'r option"

text \<open>\<^verbatim>\<open>statusResponse.progress ?? Math.min(10 + attempts * 2, 90)\<close>\<close>

definition shownProgress_2 :: "nat \<Rightarrow> 'r JobStatusResponse_2 \<Rightarrow> real" where
  "shownProgress_2 attempts statusResponse =
     (case progress_2 statusResponse of
        Some p \<Rightarrow> p
      | None \<Rightarrow> min (10 + real attempts * 2) 90)"

function pollLoop_2 ::
  "bool \<Rightarrow> (nat \<Rightarrow> string + 'r JobStatusResponse_2) \<Rightarrow> string \<Rightarrow> nat \<Rightarrow> event list \<Rightarrow>
   event list \<times> (string + 'r)" where
  "pollLoop_2 onProgress pollJobStatus jobId attempts trace =
     (if attempts < MAX_POLL_ATTEMPTS then
        (case pollJobStatus (attempts + 1) of
           Inl e \<Rightarrow> (trace @ [Sleep POLL_INTERVAL_MS, StatusRead jobId], Inl e)
         | Inr statusResponse \<Rightarrow>
             let trace1 = callProgress onProgress (shownProgress_2 (attempts + 1) statusResponse)
                            (orElse (message_2 statusResponse) (elapsedMessage (attempts + 1)))
                            (trace @ [Sleep POLL_INTERVAL_MS, StatusRead jobId])
             in if status_2 statusResponse = Completed then
                  (case result_2 statusResponse of
                     Some r \<Rightarrow> (callProgress onProgress 100 ''Complete!'' trace1, Inr r)
                   | None \<Rightarrow>
                       (callProgress onProgress 100 ''Complete!'' trace1,
                        Inl ''Job completed but no result returned''))
                else if status_2 statusResponse = Failed then
                  (trace1, Inl (orElse (message_2 statusResponse) ''Job failed''))
                else pollLoop_2 onProgress pollJobStatus jobId (attempts + 1) trace1)
      else (trace, Inl timeoutMessage))"
  by pat_completeness auto
termination
  by (relation "measure (\<lambda>(onProgress, pollJobStatus, jobId, attempts, trace).
        MAX_POLL_ATTEMPTS - attempts)") auto

declare pollLoop_2.simps [simp del]

definition fetchEnrollmentData_2 ::
  "('q \<Rightarrow> string + 'r JobSubmitResponse_2) \<Rightarrow> (nat \<Rightarrow> string + 'r JobStatusResponse_2) \<Rightarrow>
   'q \<Rightarrow> bool \<Rightarrow> event list \<times> (string + 'r)" where
  "fetchEnrollmentData_2 submitEnrollmentJob pollJobStatus request onProgress =
     (let trace0 = callProgress onProgress 0 ''Submitting request...'' [] @ [Submit] in
      case submitEnrollmentJob request of
        Inl e \<Rightarrow> (trace0, Inl e)
      | Inr submitResponse \<Rightarrow>
          (case embedded_2 submitResponse of
             Some r \<Rightarrow> (trace0, Inr r)
           | None \<Rightarrow>
               if submit_jobId_2 submitResponse = None \<or> submit_jobId_2 submitResponse = Some []
               then (trace0, Inl ''No job ID returned from server'')
               else
                 pollLoop_2 onProgress pollJobStatus (the (submit_jobId_2 submitResponse)) 0
                   (callProgress onProgress 5
                      ''Request submitted. Processing enrollment data...'' trace0)))"

text \<open>What a trace shows: the status reads, and the progress values given to the callback.\<close>

fun isStatusRead :: "event \<Rightarrow> bool" where
  "isStatusRead (StatusRead j) = True"
| "isStatusRead e = False"


section \<open>Predicates used in the statements\<close>

text \<open>A cell that \<open>parseCSVLine\<close> reads back as written: a number must print without comma or quote.\<close>

definition plainCell :: "('n \<Rightarrow> string) \<Rightarrow> 'n jsval \<Rightarrow> bool" where
  "plainCell numToString v =
     (case v of
        JNum n \<Rightarrow> commaChar \<notin> set (numToString n) \<and> quoteChar \<notin> set (numToString n)
      | _ \<Rightarrow> True)"

text \<open>
  The text of a cell as the specification words it: a string with a comma or a quote is
  wrapped in quotes with every quote doubled, any other string is written as it is, a
  number is printed, \<^verbatim>\<open>null\<close> and \<^verbatim>\<open>undefined\<close> give the empty field.
\<close>

definition doubledQuotes :: "string \<Rightarrow> string" where
  "doubledQuotes s = concat (map (\<lambda>c. if c = quoteChar then [quoteChar, quoteChar] else [c]) s)"

definition emittedCell :: "('n \<Rightarrow> string) \<Rightarrow> 'n jsval \<Rightarrow> string" where
  "emittedCell numToString v =
     (case v of
        JStr s \<Rightarrow>
          if commaChar \<in> set s \<or> quoteChar \<in> set s
          then [quoteChar] @ doubledQuotes s @ [quoteChar]
          else s
      | JNum n \<Rightarrow> numToString n
      | JNull \<Rightarrow> []
      | JUndefined \<Rightarrow> [])"

text \<open>The value \<open>setField\<close> stores for the column at an index.\<close>

definition columnValue :: "(string \<Rightarrow> 'n) \<Rightarrow> string list \<Rightarrow> string \<Rightarrow> nat \<Rightarrow> 'n jsval" where
  "columnValue parseFloat values header index =
     fieldValue parseFloat (fieldNameOf header)
       (if index < length values then Some (trim (values ! index)) else None)"

text \<open>
  The value of a decoded field as the specification words it: a numeric field is the number
  parsed from the cell, \<^verbatim>\<open>null\<close> for the empty cell; any other field is the cell as text, the
  empty string for the empty cell. The cell is trimmed first, as the code does.
\<close>

definition decodedCell :: "(string \<Rightarrow> 'n) \<Rightarrow> string \<Rightarrow> string \<Rightarrow> 'n jsval" where
  "decodedCell parseFloat fieldName cell =
     (if fieldName \<in> set numericFields
      then (if trim cell = [] then JNull else JNum (parseFloat (trim cell)))
      else JStr (trim cell))"

text \<open>A string that \<open>trim\<close> leaves alone starts and ends with a character that is not white space.\<close>

definition cleanEdges :: "string \<Rightarrow> bool" where
  "cleanEdges s \<longleftrightarrow> s = [] \<or> (\<not> isWhitespace (hd s) \<and> \<not> isWhitespace (last s))"

text \<open>A string field the decoder returns unchanged: no newline, and nothing for \<open>trim\<close> to remove.\<close>

definition plainText :: "string \<Rightarrow> bool" where
  "plainText s \<longleftrightarrow> newlineChar \<notin> set s \<and> trim s = s"

text \<open>A number the codec carries through: it prints to a non-empty text without comma, quote,
  newline or white space at either end, and \<^verbatim>\<open>parseFloat\<close> reads that text back as the number.\<close>

definition plainNumber :: "('n \<Rightarrow> string) \<Rightarrow> (string \<Rightarrow> 'n) \<Rightarrow> 'n \<Rightarrow> bool" where
  "plainNumber numToString parseFloat n \<longleftrightarrow>
     numToString n \<noteq> [] \<and> trim (numToString n) = numToString n \<and>
     commaChar \<notin> set (numToString n) \<and> quoteChar \<notin> set (numToString n) \<and>
     newlineChar \<notin> set (numToString n) \<and> parseFloat (numToString n) = n"

text \<open>The values a field may hold for the round trip: a numeric field \<^verbatim>\<open>null\<close> or a plain number,
  any other field a plain string.\<close>

definition roundTripValue ::
  "('n \<Rightarrow> string) \<Rightarrow> (string \<Rightarrow> 'n) \<Rightarrow> string \<Rightarrow> 'n jsval \<Rightarrow> bool" where
  "roundTripValue numToString parseFloat k v =
     (if k \<in> set numericFields
      then (case v of JNull \<Rightarrow> True | JNum n \<Rightarrow> plainNumber numToString parseFloat n | _ \<Rightarrow> False)
      else (case v of JStr s \<Rightarrow> plainText s | _ \<Rightarrow> False))"

text \<open>A property name that survives the header row: no comma, no newline, nothing to trim, and
  neither a label of \<open>headerMap\<close> nor the name of an inherited member.\<close>

definition plainKey :: "string \<Rightarrow> bool" where
  "plainKey k \<longleftrightarrow>
     commaChar \<notin> set k \<and> newlineChar \<notin> set k \<and> trim k = k \<and> headerMap k = None \<and>
     inheritedKey k = None"

text \<open>The property names of \<^verbatim>\<open>EnrollmentRecord\<close>, in the order of the interface.\<close>

definition enrollmentRecordKeys :: "string list" where
  "enrollmentRecordKeys =
     [''term'', ''subject'', ''course'', ''crn'', ''section'', ''startTime'', ''endTime'',
      ''days'', ''building'', ''room'', ''primaryInstructors'', ''additionalInstructors'',
      ''enrollmentActual'', ''enrollmentMaximum'', ''enrollmentSeatsAvailable'',
      ''waitlistCapacity'', ''waitlistActual'', ''waitlistSeatsAvailable'', ''buildingCode'',
      ''roomCapacity'', ''loss'']"

definition plainNumberOrNull :: "('n \<Rightarrow> string) \<Rightarrow> (string \<Rightarrow> 'n) \<Rightarrow> 'n option \<Rightarrow> bool" where
  "plainNumberOrNull numToString parseFloat x =
     (case x of None \<Rightarrow> True | Some n \<Rightarrow> plainNumber numToString parseFloat n)"

text \<open>The records the round trip is proved for.\<close>

definition roundTripSafe :: "('n \<Rightarrow> string) \<Rightarrow> (string \<Rightarrow> 'n) \<Rightarrow> 'n EnrollmentRecord \<Rightarrow> bool" where
  "roundTripSafe numToString parseFloat r \<longleftrightarrow>
     plainText (term_field r) \<and> plainText (subject r) \<and> plainText (course r) \<and>
     plainText (crn r) \<and> plainText (section_field r) \<and> plainText (startTime r) \<and>
     plainText (endTime r) \<and> plainText (days r) \<and> plainText (building r) \<and>
     plainText (room r) \<and> plainText (primaryInstructors r) \<and>
     plainText (additionalInstructors r) \<and> plainText (buildingCode r) \<and>
     plainNumberOrNull numToString parseFloat (enrollmentActual r) \<and>
     plainNumberOrNull numToString parseFloat (enrollmentMaximum r) \<and>
     plainNumberOrNull numToString parseFloat (enrollmentSeatsAvailable r) \<and>
     plainNumberOrNull numToString parseFloat (waitlistCapacity r) \<and>
     plainNumberOrNull numToString parseFloat (waitlistActual r) \<and>
     plainNumberOrNull numToString parseFloat (waitlistSeatsAvailable r) \<and>
     plainNumberOrNull numToString parseFloat (roomCapacity r) \<and>
     plainNumberOrNull numToString parseFloat (loss r)"

text \<open>A record for the closed examples: a comma and quotes in string fields, an empty string,
  a zero and \<^verbatim>\<open>null\<close> among the numbers.\<close>

definition sampleRecord :: "jsnum EnrollmentRecord" where
  "sampleRecord =
     \<lparr>term_field = ''Fall 2024'', subject = ''CS'', course = ''CS 1332'', crn = ''12345'',
      section_field = ''A'', startTime = ''09:30'', endTime = ''10:45'', days = ''TR'',
      building = ''Klaus, Advanced Computing'', room = ''1443'',
      primaryInstructors = ''Doe, Jane '' @ [quoteChar] @ ''JD'' @ [quoteChar],
      additionalInstructors = [],
      enrollmentActual = Some (Finite 180), enrollmentMaximum = Some (Finite 200),
      enrollmentSeatsAvailable = Some (Finite 20), waitlistCapacity = Some (Finite 0),
      waitlistActual = None, waitlistSeatsAvailable = None, buildingCode = ''153'',
      roomCapacity = Some (Finite 210), loss = None\<rparr>"

text \<open>The events of the poll loop itself: the sleep and the status read of an iteration.\<close>

fun isPollStep :: "event \<Rightarrow> bool" where
  "isPollStep (Sleep ms) = True"
| "isPollStep (StatusRead j) = True"
| "isPollStep e = False"

text \<open>The terminal statuses.\<close>

definition terminal :: "jobStatus \<Rightarrow> bool" where
  "terminal s \<longleftrightarrow> s = Completed \<or> s = Failed"

text \<open>Servers for the closed examples of the second version: a submission that returns a job id,
  a job that never leaves \<^verbatim>\<open>processing\<close>, and jobs that fail with a stored message at the
  second or at the first status read.\<close>

definition jobAccepted_2 :: "unit \<Rightarrow> string + unit JobSubmitResponse_2" where
  "jobAccepted_2 request =
     Inr \<lparr>submit_jobId_2 = Some ''job-1'', submit_status_2 = Pending, submit_message_2 = None,
          embedded_2 = None\<rparr>"

definition alwaysProcessing_2 :: "nat \<Rightarrow> string + unit JobStatusResponse_2" where
  "alwaysProcessing_2 k =
     Inr \<lparr>jobId_2 = Some ''job-1'', status_2 = Processing, progress_2 = None, message_2 = None,
          result_2 = None\<rparr>"

definition failsSecondRead_2 :: "string \<Rightarrow> nat \<Rightarrow> string + unit JobStatusResponse_2" where
  "failsSecondRead_2 m k =
     (if k < 2 then
        Inr \<lparr>jobId_2 = Some ''job-1'', status_2 = Processing, progress_2 = None,
             message_2 = None, result_2 = None\<rparr>
      else
        Inr \<lparr>jobId_2 = Some ''job-1'', status_2 = Failed, progress_2 = None,
             message_2 = Some m, result_2 = None\<rparr>)"

definition failsWith_2 :: "string \<Rightarrow> nat \<Rightarrow> string + unit JobStatusResponse_2" where
  "failsWith_2 m k =
     Inr \<lparr>jobId_2 = Some ''job-1'', status_2 = Failed, progress_2 = None, message_2 = Some m,
          result_2 = None\<rparr>"

text \<open>Servers for the closed examples of the first version: a submission that returns a job id, a
  job that fails at the second status read, a job whose reported progress goes down, a
  job whose reported progress goes up, and a download that fails.\<close>

definition jobAccepted :: "unit \<Rightarrow> string + JobSubmitResponse" where
  "jobAccepted request =
     Inr \<lparr>submit_job_id = Some ''job-1'', submit_status = Pending, submit_message = None\<rparr>"

definition failsSecondRead :: "string \<Rightarrow> nat \<Rightarrow> string + JobStatusResponse" where
  "failsSecondRead m k =
     (if k < 2 then
        Inr \<lparr>job_id = Some ''job-1'', status = Processing, progress = None, csv_data = None,
             download_url = None, error_message = None\<rparr>
      else
        Inr \<lparr>job_id = Some ''job-1'', status = Failed, progress = None, csv_data = None,
             download_url = None, error_message = Some m\<rparr>)"


definition noDownload :: "string \<Rightarrow> string + bool \<times> string" where
  "noDownload url = Inl ''Failed to fetch''"





section \<open>The processing queue and the Worker's event source\<close>

text \<open>
  The constructs \<^verbatim>\<open>createProcessingQueue\<close> and \<^verbatim>\<open>createDataProcessingFunction\<close> declare, as
  the values of their properties. \<^verbatim>\<open>this.processingQueue\<close> is an argument of the second; the
  role, layers, environment and log group of the function are left out.
\<close>

record StackConfig =
  cognitoUserPoolId :: string
  cognitoUserPoolClientId :: string
  customDomainName :: "string option"
  certificateArn :: "string option"
  hostedZoneId :: "string option"
  environment :: string
  frontendDomain :: "string option"
  apiDomain :: "string option"

datatype duration = Seconds nat | Minutes nat | Days nat

datatype Queue =
  Queue (constructId: string) (queueName: string) (visibilityTimeout: "duration option")
    (retentionPeriod: "duration option") (deadLetterQueue: "DeadLetterQueue option")
    (receiveMessageWaitTime: "duration option")
and DeadLetterQueue =
  DeadLetterQueue (queue: Queue) (maxReceiveCount: nat)

record SqsEventSource =
  eventSourceQueue :: Queue
  batchSize :: nat
  maxBatchingWindow :: duration
  reportBatchItemFailures :: bool

record LambdaFunction =
  functionName :: string
  description :: string
  runtime :: string
  handler :: string
  functionTimeout :: duration
  memorySize :: nat
  retryAttempts :: nat
  eventSources :: "SqsEventSource list"

definition createProcessingQueue :: "StackConfig \<Rightarrow> Queue" where
  "createProcessingQueue config =
     (let deadLetterQueue =
            Queue ''ProcessingDeadLetterQueue'' (''gatech-enrollment-dlq-'' @ environment config)
              None (Some (Days 14)) None None;
          processingQueue =
            Queue ''ProcessingQueue'' (''gatech-enrollment-processing-'' @ environment config)
              (Some (Minutes 15)) (Some (Days 4))
              (Some (DeadLetterQueue deadLetterQueue 3))
              (Some (Seconds 20))
      in processingQueue)"

definition createDataProcessingFunction :: "Queue \<Rightarrow> StackConfig \<Rightarrow> LambdaFunction" where
  "createDataProcessingFunction processingQueue config =
     (let dataProcessingFunction =
            \<lparr>functionName = ''gatech-enrollment-data-processing-'' @ environment config,
             description =
               ''Processes Georgia Tech enrollment data requests and generates CSV reports'',
             runtime = ''python3.11'',
             handler = ''index.lambda_handler'',
             functionTimeout = Minutes 15,
             memorySize = 1024,
             retryAttempts = 0,
             eventSources = []\<rparr>
      in dataProcessingFunction
           \<lparr>eventSources := eventSources dataProcessingFunction
              @ [\<lparr>eventSourceQueue = processingQueue, batchSize = 1,
                   maxBatchingWindow = Seconds 5, reportBatchItemFailures = True\<rparr>]\<rparr>)"

section \<open>Properties of the encoder\<close>

text \<open>
  C10. \<^verbatim>\<open>recordsToCSV\<close> of the empty list of records is the empty string: no header row
  is emitted for empty input.
\<close>

theorem recordsToCSV_empty: "recordsToCSV numToString [] = []"
  by (simp add: recordsToCSV_def)

section \<open>\<open>parseCSVLine\<close> inverts the quoting of a row\<close>

lemma loop_unquoted:
  "quoteChar \<notin> set s \<Longrightarrow> commaChar \<notin> set s \<Longrightarrow>
   parseCSVLine_loop (s @ rest) result current False
     = parseCSVLine_loop rest result (current @ s) False"
  by (induction s arbitrary: current) auto

lemma loop_quoted:
  "rest = [] \<or> hd rest \<noteq> quoteChar \<Longrightarrow>
   parseCSVLine_loop (replaceQuotes s @ quoteChar # rest) result current True
     = parseCSVLine_loop rest result (current @ s) False"
  by (induction s arbitrary: current) auto

lemma loop_cell:
  assumes "rest = [] \<or> hd rest \<noteq> quoteChar" and "plainCell numToString v"
  shows "parseCSVLine_loop (joinElem numToString (escapeValue v) @ rest) result current False
           = parseCSVLine_loop rest result (current @ joinElem numToString v) False"
proof (cases v)
  case (JStr s)
  with assms(1) show ?thesis
    by (simp add: joinElem_def escapeValue_def loop_unquoted loop_quoted)
next
  case (JNum n)
  with assms(2) show ?thesis
    by (simp add: joinElem_def escapeValue_def plainCell_def loop_unquoted)
qed (simp_all add: joinElem_def escapeValue_def)

lemma joinWith_Cons:
  "joinWith sep (x # xs) = (if xs = [] then x else x @ sep @ joinWith sep xs)"
  by (cases xs) auto

lemma loop_cells:
  "vs \<noteq> [] \<Longrightarrow> \<forall>v\<in>set vs. plainCell numToString v \<Longrightarrow>
   parseCSVLine_loop
       (joinWith [commaChar] (map (\<lambda>v. joinElem numToString (escapeValue v)) vs)) result [] False
     = result @ map (joinElem numToString) vs"
proof (induction vs arbitrary: result)
  case Nil
  then show ?case by simp
next
  case (Cons v vs)
  let ?enc = "\<lambda>v. joinElem numToString (escapeValue v)"
  show ?case
  proof (cases "vs = []")
    case True
    with Cons.prems loop_cell[of "[]" numToString v result "[]"] show ?thesis by simp
  next
    case False
    have "parseCSVLine_loop (?enc v @ commaChar # joinWith [commaChar] (map ?enc vs)) result [] False
        = parseCSVLine_loop (commaChar # joinWith [commaChar] (map ?enc vs)) result
            ([] @ joinElem numToString v) False"
      using Cons.prems by (intro loop_cell) simp_all
    with False Cons.prems Cons.IH[of "result @ [joinElem numToString v]"] show ?thesis
      by (simp add: joinWith_Cons)
  qed
qed

lemma encodeRow_cells:
  "encodeRow numToString headers record
     = joinWith [commaChar]
         (map (\<lambda>v. joinElem numToString (escapeValue v)) (map (objGet record) headers))"
  by (simp add: encodeRow_def comp_def)

lemma parseCSVLine_encodeRow:
  assumes "headers \<noteq> []" and "\<forall>h\<in>set headers. plainCell numToString (objGet record h)"
  shows "parseCSVLine (encodeRow numToString headers record)
           = map (\<lambda>h. joinElem numToString (objGet record h)) headers"
  using assms loop_cells[of "map (objGet record) headers" numToString "[]"]
  by (simp add: parseCSVLine_def encodeRow_cells comp_def)

text \<open>
  C6, as the claim states it, fails for the empty list of fields: the encoded line is the
  empty string, which \<open>parseCSVLine\<close> reads as one empty field.
\<close>

theorem parseCSVLine_no_fields_counterexample:
  "parseCSVLine (encodeRow numToString_int [] []) \<noteq> []"
  by (simp add: encodeRow_def parseCSVLine_def)

text \<open>
  C6, amended. For every non-empty list of field strings, \<open>parseCSVLine\<close> applied to the
  line the encoder writes for them (each field quoted when it holds a comma or a quote,
  quotes doubled, joined by commas) returns exactly these strings. The fields are the
  values of a record under its headers, as \<open>recordsToCSV\<close> encodes a row; newlines in a
  field do not matter to \<open>parseCSVLine\<close>.
\<close>

theorem parseCSVLine_inverts_row:
  assumes "headers \<noteq> []" and "map (objGet record) headers = map JStr cells"
  shows "parseCSVLine (encodeRow numToString headers record) = cells"
proof -
  have "map (objGet record) headers \<noteq> []"
    using assms(1) by simp
  moreover have "\<forall>v\<in>set (map (objGet record) headers). plainCell numToString v"
    unfolding assms(2) by (simp add: plainCell_def)
  ultimately have "parseCSVLine_loop
       (joinWith [commaChar]
          (map (\<lambda>v. joinElem numToString (escapeValue v)) (map (objGet record) headers))) [] [] False
     = [] @ map (joinElem numToString) (map (objGet record) headers)"
    by (rule loop_cells)
  then show ?thesis
    unfolding assms(2) by (simp add: parseCSVLine_def encodeRow_cells assms(2) joinElem_def comp_def)
qed

theorem parseCSVLine_inverts_row_witness:
  "parseCSVLine (encodeRow numToString_int [''a'', ''b'', ''c'']
       [(''a'', JStr ''x,y''), (''b'', JStr [CHR ''p'', quoteChar, CHR ''q'']), (''c'', JStr [])])
     = [''x,y'', [CHR ''p'', quoteChar, CHR ''q''], []]"
  using parseCSVLine_inverts_row[of "[''a'', ''b'', ''c'']"
      "[(''a'', JStr ''x,y''), (''b'', JStr [CHR ''p'', quoteChar, CHR ''q'']), (''c'', JStr [])]"
      "[''x,y'', [CHR ''p'', quoteChar, CHR ''q''], []]" numToString_int]
  by (simp add: objGet_def)

section \<open>What the encoder writes\<close>

lemma replaceQuotes_doubled: "replaceQuotes s = doubledQuotes s"
  by (induction s) (simp_all add: doubledQuotes_def)

lemma joinElem_escapeValue: "joinElem numToString (escapeValue v) = emittedCell numToString v"
  by (cases v) (simp_all add: joinElem_def escapeValue_def emittedCell_def replaceQuotes_doubled)

lemma encodeRow_emitted:
  "encodeRow numToString headers
     = (\<lambda>record. joinWith [commaChar]
          (map (\<lambda>header. emittedCell numToString (objGet record header)) headers))"
  by (rule ext) (simp add: encodeRow_def joinElem_escapeValue)


section \<open>The rows \<open>parseCSVToRecords\<close> decodes\<close>

lemma rowsLoop_filter:
  "rowsLoop parseFloat headers rows records
     = records @ map (\<lambda>row. decodeRow parseFloat headers (parseCSVLine row))
         (filter (\<lambda>row. row \<noteq> [] \<and> length (parseCSVLine row) = length headers) rows)"
  by (induction rows arbitrary: records) (simp_all add: Let_def)

lemma trim_prefix: "\<exists>zs. dropWhile isWhitespace s = trim s @ zs"
proof -
  let ?t = "dropWhile isWhitespace s"
  have "rev (takeWhile isWhitespace (rev ?t) @ dropWhile isWhitespace (rev ?t)) = ?t"
    by (simp only: takeWhile_dropWhile_id rev_rev_ident)
  then have "?t = trim s @ rev (takeWhile isWhitespace (rev ?t))"
    by (simp only: rev_append trim_def)
  then show ?thesis ..
qed

lemma hd_trim: "trim s \<noteq> [] \<Longrightarrow> \<not> isWhitespace (hd (trim s))"
proof -
  assume ne: "trim s \<noteq> []"
  obtain zs where zs: "dropWhile isWhitespace s = trim s @ zs"
    using trim_prefix by blast
  with ne have "dropWhile isWhitespace s \<noteq> []" by auto
  then have "\<not> isWhitespace (hd (dropWhile isWhitespace s))"
    by (rule hd_dropWhile)
  with zs ne show ?thesis by simp
qed

lemma splitOn_nonempty: "splitOn c s \<noteq> []"
  by (induction s) (auto split: list.splits)

lemma splitOn_hd_empty: "hd (splitOn c s) = [] \<Longrightarrow> s = [] \<or> hd s = c"
  by (cases s) (auto split: list.splits if_splits)

lemma first_line_nonempty:
  assumes "splitOn newlineChar (trim csvData) = headerLine # rows" and "rows \<noteq> []"
  shows "headerLine \<noteq> []"
proof
  assume "headerLine = []"
  with assms(1) have "hd (splitOn newlineChar (trim csvData)) = []" by simp
  then have "trim csvData = [] \<or> hd (trim csvData) = newlineChar"
    by (rule splitOn_hd_empty)
  then show False
  proof
    assume "trim csvData = []"
    with assms show False by simp
  next
    assume nl: "hd (trim csvData) = newlineChar"
    show False
    proof (cases "trim csvData = []")
      case True
      with assms show False by simp
    next
      case False
      then have "\<not> isWhitespace (hd (trim csvData))" by (rule hd_trim)
      with nl show False by (simp add: isWhitespace_def)
    qed
  qed
qed

lemma parseCSVToRecords_rows:
  assumes "splitOn newlineChar (trim csvData) = headerLine # rows"
  shows "parseCSVToRecords parseFloat csvData
     = map (\<lambda>row. decodeRow parseFloat (map trim (splitOn commaChar headerLine)) (parseCSVLine row))
         (filter (\<lambda>row. row \<noteq> [] \<and>
              length (parseCSVLine row) = length (map trim (splitOn commaChar headerLine))) rows)"
proof (cases "rows = []")
  case True
  with assms show ?thesis by (simp add: parseCSVToRecords_def)
next
  case False
  with assms have "headerLine \<noteq> []" by (rule first_line_nonempty)
  with False assms show ?thesis
    by (simp add: parseCSVToRecords_def rowsLoop_filter)
qed

section \<open>The fields of a decoded row\<close>

lemma objSet_fresh: "k \<notin> fst ` set obj \<Longrightarrow> objSet k v obj = obj @ [(k, v)]"
  by (induction obj) auto

lemma forEachHeader_distinct:
  "distinct (map fieldNameOf hs) \<Longrightarrow> set (map fieldNameOf hs) \<inter> fst ` set obj = {} \<Longrightarrow>
   forEachHeader parseFloat values i hs obj
     = obj @ map (\<lambda>(h, j). (fieldNameOf h, columnValue parseFloat values h j))
                  (zip hs [i..<i + length hs])"
proof (induction hs arbitrary: i obj)
  case Nil
  then show ?case by simp
next
  case (Cons h hs)
  let ?k = "fieldNameOf h"
  let ?v = "columnValue parseFloat values h i"
  have fresh: "?k \<notin> fst ` set obj"
    using Cons.prems(2) by auto
  have step: "setField parseFloat values h i obj = obj @ [(?k, ?v)]"
    using fresh by (simp add: setField_def Let_def columnValue_def objSet_fresh)
  have "set (map fieldNameOf hs) \<inter> fst ` set (obj @ [(?k, ?v)]) = {}"
    using Cons.prems by auto
  with Cons.prems(1) have
    "forEachHeader parseFloat values (Suc i) hs (obj @ [(?k, ?v)])
       = (obj @ [(?k, ?v)]) @ map (\<lambda>(h, j). (fieldNameOf h, columnValue parseFloat values h j))
                  (zip hs [Suc i..<Suc i + length hs])"
    by (intro Cons.IH) simp_all
  moreover have "[i..<i + length (h # hs)] = i # [Suc i..<Suc i + length hs]"
    by (subst upt_rec) simp
  ultimately show ?case
    using step by simp
qed

lemma decodeRow_distinct:
  assumes "distinct (map fieldNameOf headers)"
  shows "decodeRow parseFloat headers values
     = zip (map fieldNameOf headers)
         (map (\<lambda>j. columnValue parseFloat values (headers ! j) j) [0..<length headers])"
proof -
  have "decodeRow parseFloat headers values
      = map (\<lambda>(h, j). (fieldNameOf h, columnValue parseFloat values h j))
          (zip headers [0..<0 + length headers])"
    unfolding decodeRow_def using assms
    by (subst forEachHeader_distinct) simp_all
  also have "\<dots> = zip (map fieldNameOf headers)
         (map (\<lambda>j. columnValue parseFloat values (headers ! j) j) [0..<length headers])"
    by (rule nth_equalityI) simp_all
  finally show ?thesis .
qed

lemma map_of_objSet: "map_of (objSet k v obj) = (map_of obj)(k \<mapsto> v)"
  by (induction obj) (auto simp: fun_eq_iff)

lemma objGet_objSet: "objGet (objSet k v obj) k' = (if k' = k then v else objGet obj k')"
  by (simp add: objGet_def map_of_objSet)

lemma objGet_setField:
  "objGet (setField parseFloat vs h i obj) k
     = (if k = fieldNameOf h then columnValue parseFloat vs h i else objGet obj k)"
  by (simp add: setField_def Let_def columnValue_def objGet_objSet)

lemma forEachHeader_untouched:
  "k \<notin> fieldNameOf ` set hs \<Longrightarrow>
   objGet (forEachHeader parseFloat vs i hs obj) k = objGet obj k"
  by (induction hs arbitrary: i obj) (auto simp: objGet_setField)

lemma forEachHeader_last_wins:
  "j < length hs \<Longrightarrow>
   \<forall>j'. j < j' \<and> j' < length hs \<longrightarrow> fieldNameOf (hs ! j') \<noteq> fieldNameOf (hs ! j) \<Longrightarrow>
   objGet (forEachHeader parseFloat vs i hs obj) (fieldNameOf (hs ! j))
     = columnValue parseFloat vs (hs ! j) (i + j)"
proof (induction hs arbitrary: i j obj)
  case Nil
  then show ?case by simp
next
  case (Cons h hs)
  show ?case
  proof (cases j)
    case 0
    have "fieldNameOf h \<notin> fieldNameOf ` set hs"
    proof
      assume "fieldNameOf h \<in> fieldNameOf ` set hs"
      then obtain m where m: "m < length hs" "fieldNameOf (hs ! m) = fieldNameOf h"
        by (auto simp: in_set_conv_nth)
      with Cons.prems(2) 0 have "fieldNameOf ((h # hs) ! Suc m) \<noteq> fieldNameOf ((h # hs) ! 0)"
        by (metis Suc_less_eq length_Cons zero_less_Suc)
      with m show False by simp
    qed
    with 0 show ?thesis
      by (simp add: forEachHeader_untouched objGet_setField)
  next
    case (Suc m)
    with Cons.prems have m: "m < length hs"
      and later: "\<forall>j'. m < j' \<and> j' < length hs \<longrightarrow> fieldNameOf (hs ! j') \<noteq> fieldNameOf (hs ! m)"
      by auto
    from Cons.IH[OF m later, of "Suc i" "setField parseFloat vs h i obj"] Suc
    show ?thesis by simp
  qed
qed

lemma columnValue_decodedCell:
  "j < length vs \<Longrightarrow>
   columnValue parseFloat vs h j = decodedCell parseFloat (fieldNameOf h) (vs ! j)"
  by (simp add: columnValue_def fieldValue_def decodedCell_def)

lemma decodeRow_last_wins:
  assumes "length vs = length headers" and "j < length headers"
    and "\<forall>j'. j < j' \<and> j' < length headers \<longrightarrow>
           fieldNameOf (headers ! j') \<noteq> fieldNameOf (headers ! j)"
  shows "objGet (decodeRow parseFloat headers vs) (fieldNameOf (headers ! j))
           = decodedCell parseFloat (fieldNameOf (headers ! j)) (vs ! j)"
  using forEachHeader_last_wins[OF assms(2,3), of parseFloat vs 0 "[]"] assms(1,2)
  by (simp add: decodeRow_def columnValue_decodedCell)

section \<open>Which rows are kept\<close>

text \<open>
  C3, as the claim states it, fails for a blank line: under a one-column header a blank line
  parses to one column, the header's count, and is skipped all the same. Here three data
  rows have the header's column count and one has a column more, and two records come out.
\<close>

theorem blank_row_skipped_counterexample:
  "length (parseCSVToRecords parseFloat_int
       (joinWith [newlineChar] [''a'', ''x'', [], ''y'', ''p,q''])) = 2
   \<and> length (map trim (splitOn commaChar ''a'')) = 1
   \<and> length (parseCSVLine ''x'') = 1
   \<and> length (parseCSVLine []) = 1
   \<and> length (parseCSVLine ''y'') = 1
   \<and> length (parseCSVLine ''p,q'') = 2"
  by code_simp

text \<open>
  C3, amended. For every CSV input, with the data rows being the lines after the first line
  of the trimmed text: blank rows and rows whose parsed column count differs from the
  header's are skipped, and every other row is decoded, in order. There are as many records
  as kept rows, and the \<open>i\<close>-th record holds, for each column that no later column names
  again, the decoded cell of the \<open>i\<close>-th kept row under the column's field name. So a header,
  three non-empty rows with the header's column count and one row with a column more or
  less decode to exactly three records.
\<close>

theorem parseCSVToRecords_skips_mismatched_rows:
  assumes "splitOn newlineChar (trim csvData) = headerLine # rows"
    and "headers = map trim (splitOn commaChar headerLine)"
    and "kept = filter (\<lambda>row. row \<noteq> [] \<and> length (parseCSVLine row) = length headers) rows"
  shows "length (parseCSVToRecords parseFloat csvData) = length kept
       \<and> (\<forall>i<length kept. \<forall>j<length headers.
            (\<forall>j'. j < j' \<and> j' < length headers \<longrightarrow>
                  fieldNameOf (headers ! j') \<noteq> fieldNameOf (headers ! j)) \<longrightarrow>
            objGet (parseCSVToRecords parseFloat csvData ! i) (fieldNameOf (headers ! j))
              = decodedCell parseFloat (fieldNameOf (headers ! j)) (parseCSVLine (kept ! i) ! j))"
proof -
  have records: "parseCSVToRecords parseFloat csvData
      = map (\<lambda>row. decodeRow parseFloat headers (parseCSVLine row)) kept"
    using parseCSVToRecords_rows[OF assms(1), of parseFloat] assms(2,3) by simp
  have "\<forall>i<length kept. \<forall>j<length headers.
            (\<forall>j'. j < j' \<and> j' < length headers \<longrightarrow>
                  fieldNameOf (headers ! j') \<noteq> fieldNameOf (headers ! j)) \<longrightarrow>
            objGet (parseCSVToRecords parseFloat csvData ! i) (fieldNameOf (headers ! j))
              = decodedCell parseFloat (fieldNameOf (headers ! j)) (parseCSVLine (kept ! i) ! j)"
  proof (intro allI impI)
    fix i j
    assume i: "i < length kept" and j: "j < length headers"
      and later: "\<forall>j'. j < j' \<and> j' < length headers \<longrightarrow>
                  fieldNameOf (headers ! j') \<noteq> fieldNameOf (headers ! j)"
    from i have "kept ! i \<in> set kept" by simp
    then have len: "length (parseCSVLine (kept ! i)) = length headers"
      unfolding assms(3) by simp
    from decodeRow_last_wins[OF len j later, of parseFloat] i
    show "objGet (parseCSVToRecords parseFloat csvData ! i) (fieldNameOf (headers ! j))
              = decodedCell parseFloat (fieldNameOf (headers ! j)) (parseCSVLine (kept ! i) ! j)"
      by (simp add: records)
  qed
  with records show ?thesis by simp
qed

theorem parseCSVToRecords_skips_mismatched_rows_witness:
  "length (parseCSVToRecords parseFloat_int
       (joinWith [newlineChar] [''A,B'', ''1,2'', ''3,4,5'', ''6,7'', ''8,9''])) = 3
   \<and> objGet (parseCSVToRecords parseFloat_int
         (joinWith [newlineChar] [''A,B'', ''1,2'', ''3,4,5'', ''6,7'', ''8,9'']) ! 0) ''A''
       = JStr ''1''
   \<and> objGet (parseCSVToRecords parseFloat_int
         (joinWith [newlineChar] [''A,B'', ''1,2'', ''3,4,5'', ''6,7'', ''8,9'']) ! 1) ''B''
       = JStr ''7''
   \<and> objGet (parseCSVToRecords parseFloat_int
         (joinWith [newlineChar] [''A,B'', ''1,2'', ''3,4,5'', ''6,7'', ''8,9'']) ! 2) ''A''
       = JStr ''8''"
proof -
  let ?csv = "joinWith [newlineChar] [''A,B'', ''1,2'', ''3,4,5'', ''6,7'', ''8,9'']"
  have split: "splitOn newlineChar (trim ?csv) = ''A,B'' # [''1,2'', ''3,4,5'', ''6,7'', ''8,9'']"
    by (simp add: trim_def isWhitespace_def)
  have headers: "[''A'', ''B''] = map trim (splitOn commaChar ''A,B'')"
    by (simp add: trim_def isWhitespace_def)
  have kept: "[''1,2'', ''6,7'', ''8,9'']
      = filter (\<lambda>row. row \<noteq> [] \<and> length (parseCSVLine row) = length [''A'', ''B''])
          [''1,2'', ''3,4,5'', ''6,7'', ''8,9'']"
    by (simp add: parseCSVLine_def)
  note all = parseCSVToRecords_skips_mismatched_rows[OF split headers kept, of parseFloat_int]
  note field = all[THEN conjunct2, rule_format]
  have names: "fieldNameOf ''A'' = ''A''" "fieldNameOf ''B'' = ''B''"
    by (simp_all add: fieldNameOf_def headerMap_def inheritedKey_def)
  have "objGet (parseCSVToRecords parseFloat_int ?csv ! 0) (fieldNameOf ([''A'', ''B''] ! 0))
      = decodedCell parseFloat_int (fieldNameOf ([''A'', ''B''] ! 0))
          (parseCSVLine ([''1,2'', ''6,7'', ''8,9''] ! 0) ! 0)"
    by (rule field) (auto simp: names less_Suc_eq)
  then have "objGet (parseCSVToRecords parseFloat_int ?csv ! 0) ''A'' = JStr ''1''"
    by (simp add: names decodedCell_def numericFields_def parseCSVLine_def trim_def isWhitespace_def)
  moreover
  have "objGet (parseCSVToRecords parseFloat_int ?csv ! 1) (fieldNameOf ([''A'', ''B''] ! 1))
      = decodedCell parseFloat_int (fieldNameOf ([''A'', ''B''] ! 1))
          (parseCSVLine ([''1,2'', ''6,7'', ''8,9''] ! 1) ! 1)"
    by (rule field) (auto simp: names less_Suc_eq)
  then have "objGet (parseCSVToRecords parseFloat_int ?csv ! 1) ''B'' = JStr ''7''"
    by (simp add: names decodedCell_def numericFields_def parseCSVLine_def trim_def isWhitespace_def)
  moreover
  have "objGet (parseCSVToRecords parseFloat_int ?csv ! 2) (fieldNameOf ([''A'', ''B''] ! 0))
      = decodedCell parseFloat_int (fieldNameOf ([''A'', ''B''] ! 0))
          (parseCSVLine ([''1,2'', ''6,7'', ''8,9''] ! 2) ! 0)"
    by (rule field) (auto simp: names less_Suc_eq)
  then have "objGet (parseCSVToRecords parseFloat_int ?csv ! 2) ''A'' = JStr ''8''"
    by (simp add: names decodedCell_def numericFields_def parseCSVLine_def trim_def isWhitespace_def)
  moreover have "length (parseCSVToRecords parseFloat_int ?csv) = 3"
    using all by simp
  ultimately show ?thesis by simp
qed

section \<open>Trimming, splitting and joining\<close>

lemma trim_cleanEdges: "cleanEdges s \<Longrightarrow> trim s = s"
proof (cases "s = []")
  case True
  then show ?thesis by (simp add: trim_def)
next
  case False
  assume "cleanEdges s"
  with False have h: "\<not> isWhitespace (hd s)" and l: "\<not> isWhitespace (last s)"
    by (simp_all add: cleanEdges_def)
  from h False have "dropWhile isWhitespace s = s"
    by (simp add: dropWhile_eq_self_iff)
  moreover from l False have "dropWhile isWhitespace (rev s) = rev s"
    by (simp add: dropWhile_eq_self_iff hd_rev)
  ultimately show ?thesis by (simp add: trim_def)
qed

lemma last_trim: "trim s \<noteq> [] \<Longrightarrow> \<not> isWhitespace (last (trim s))"
proof -
  let ?y = "dropWhile isWhitespace (rev (dropWhile isWhitespace s))"
  assume "trim s \<noteq> []"
  then have ne: "?y \<noteq> []" by (simp add: trim_def)
  then have "\<not> isWhitespace (hd ?y)" by (rule hd_dropWhile)
  moreover have "last (trim s) = hd ?y"
    using ne by (simp add: trim_def last_rev)
  ultimately show ?thesis by simp
qed

lemma cleanEdges_trim: "trim s = s \<Longrightarrow> cleanEdges s"
  using hd_trim[of s] last_trim[of s] by (auto simp: cleanEdges_def)

lemma splitOn_sep: "c \<notin> set x \<Longrightarrow> splitOn c (x @ c # rest) = x # splitOn c rest"
  by (induction x) auto

lemma splitOn_none: "c \<notin> set x \<Longrightarrow> splitOn c x = [x]"
  by (induction x) auto

lemma splitOn_joinWith:
  "xs \<noteq> [] \<Longrightarrow> \<forall>x\<in>set xs. c \<notin> set x \<Longrightarrow> splitOn c (joinWith [c] xs) = xs"
proof (induction xs)
  case Nil
  then show ?case by simp
next
  case (Cons x xs)
  then show ?case
    by (cases "xs = []") (simp_all add: joinWith_Cons splitOn_none splitOn_sep)
qed

lemma set_joinWith: "set (joinWith sep xs) \<subseteq> set sep \<union> \<Union> (set ` set xs)"
  by (induction sep xs rule: joinWith.induct) auto

lemma joinWith_two_nonempty: "2 \<le> length xs \<Longrightarrow> sep \<noteq> [] \<Longrightarrow> joinWith sep xs \<noteq> []"
  by (induction sep xs rule: joinWith.induct) auto

lemma hd_joinWith:
  "2 \<le> length xs \<Longrightarrow> hd (joinWith [c] xs) = (if hd xs = [] then c else hd (hd xs))"
  by (induction "[c]" xs rule: joinWith.induct) auto

lemma last_joinWith:
  "2 \<le> length xs \<Longrightarrow> last (joinWith [c] xs) = (if last xs = [] then c else last (last xs))"
proof (induction "[c]" xs rule: joinWith.induct)
  case 1
  then show ?case by simp
next
  case (2 x)
  then show ?case by simp
next
  case (3 x y ys)
  show ?case
  proof (cases ys)
    case Nil
    then show ?thesis by simp
  next
    case (Cons z zs)
    with 3 have "last (joinWith [c] (y # ys)) = (if last (y # ys) = [] then c else last (last (y # ys)))"
      by simp
    moreover have "joinWith [c] (y # ys) \<noteq> []"
      using Cons by (intro joinWith_two_nonempty) simp_all
    ultimately show ?thesis by simp
  qed
qed

lemma hd_joinWith_nonempty:
  "xs \<noteq> [] \<Longrightarrow> hd xs \<noteq> [] \<Longrightarrow> hd (joinWith sep xs) = hd (hd xs)"
  by (induction sep xs rule: joinWith.induct) auto

lemma joinWith_last_nonempty:
  "xs \<noteq> [] \<Longrightarrow> last xs \<noteq> [] \<Longrightarrow> joinWith sep xs \<noteq> []"
  by (induction sep xs rule: joinWith.induct) auto

lemma last_joinWith_nonempty:
  "xs \<noteq> [] \<Longrightarrow> last xs \<noteq> [] \<Longrightarrow> last (joinWith sep xs) = last (last xs)"
proof (induction sep xs rule: joinWith.induct)
  case (3 sep x y ys)
  then have "joinWith sep (y # ys) \<noteq> []"
    by (intro joinWith_last_nonempty) simp_all
  with 3 show ?case by simp
qed simp_all

section \<open>Numeric and text fields\<close>

text \<open>
  C4, as the claim states it, fails: a row with a non-numeric value in a numeric field is
  not rejected. It is decoded, and the field holds what \<^verbatim>\<open>parseFloat\<close> returns, \<^verbatim>\<open>NaN\<close>.
\<close>

theorem non_numeric_row_kept_counterexample:
  "parseCSVToRecords parseFloat_int (joinWith [newlineChar] [''Course,Loss'', ''CS 1332,abc''])
     = [[(''course'', JStr ''CS 1332''), (''loss'', JNum NaN)]]"
  by (simp add: parseCSVToRecords_def trim_def isWhitespace_def parseCSVLine_def decodeRow_def
      setField_def fieldNameOf_def headerMap_def fieldValue_def numericFields_def
      parseFloat_int_def isDigit_def)

text \<open>
  C4, amended. Every non-empty row with the header's column count is decoded, whatever its
  cells hold: no row is rejected for a non-numeric value. In the decoded record, for each
  column that no later column names again (the last column naming a field wins), a numeric
  field holds \<^verbatim>\<open>parseFloat\<close> of the trimmed cell, which is \<^verbatim>\<open>NaN\<close> for non-numeric text, or
  \<^verbatim>\<open>null\<close> when the trimmed cell is empty, and every other field holds the trimmed cell as
  text, the empty cell giving the empty string and not \<^verbatim>\<open>null\<close>.
\<close>

theorem parseCSVToRecords_field_values:
  assumes "splitOn newlineChar (trim csvData) = headerLine # rows"
    and "headers = map trim (splitOn commaChar headerLine)"
    and "row \<in> set rows" and "row \<noteq> []"
    and "length (parseCSVLine row) = length headers"
  shows "\<exists>obj\<in>set (parseCSVToRecords parseFloat csvData).
           \<forall>j<length headers.
             (\<forall>j'. j < j' \<and> j' < length headers \<longrightarrow>
                  fieldNameOf (headers ! j') \<noteq> fieldNameOf (headers ! j)) \<longrightarrow>
             objGet obj (fieldNameOf (headers ! j)) =
               (if fieldNameOf (headers ! j) \<in> set numericFields
                then (if trim (parseCSVLine row ! j) = [] then JNull
                      else JNum (parseFloat (trim (parseCSVLine row ! j))))
                else JStr (trim (parseCSVLine row ! j)))"
proof -
  let ?obj = "decodeRow parseFloat headers (parseCSVLine row)"
  have "?obj \<in> set (parseCSVToRecords parseFloat csvData)"
    using assms(2-5) by (simp add: parseCSVToRecords_rows[OF assms(1)])
  moreover have "\<forall>j<length headers.
             (\<forall>j'. j < j' \<and> j' < length headers \<longrightarrow>
                  fieldNameOf (headers ! j') \<noteq> fieldNameOf (headers ! j)) \<longrightarrow>
             objGet ?obj (fieldNameOf (headers ! j)) =
               (if fieldNameOf (headers ! j) \<in> set numericFields
                then (if trim (parseCSVLine row ! j) = [] then JNull
                      else JNum (parseFloat (trim (parseCSVLine row ! j))))
                else JStr (trim (parseCSVLine row ! j)))"
    using decodeRow_last_wins[OF assms(5), of _ parseFloat]
    by (simp add: decodedCell_def)
  ultimately show ?thesis by blast
qed

theorem parseCSVToRecords_field_values_witness:
  "\<exists>obj\<in>set (parseCSVToRecords parseFloat_int
        (joinWith [newlineChar] [''Course,Loss,Room Capacity'', ''CS 1332, 12 ,'', '',abc,7''])).
           \<forall>j<length [''Course'', ''Loss'', ''Room Capacity''].
             (\<forall>j'. j < j' \<and> j' < length [''Course'', ''Loss'', ''Room Capacity''] \<longrightarrow>
                  fieldNameOf ([''Course'', ''Loss'', ''Room Capacity''] ! j')
                    \<noteq> fieldNameOf ([''Course'', ''Loss'', ''Room Capacity''] ! j)) \<longrightarrow>
             objGet obj (fieldNameOf ([''Course'', ''Loss'', ''Room Capacity''] ! j)) =
               (if fieldNameOf ([''Course'', ''Loss'', ''Room Capacity''] ! j) \<in> set numericFields
                then (if trim (parseCSVLine ''CS 1332, 12 ,'' ! j) = [] then JNull
                      else JNum (parseFloat_int (trim (parseCSVLine ''CS 1332, 12 ,'' ! j))))
                else JStr (trim (parseCSVLine ''CS 1332, 12 ,'' ! j)))"
  by (rule parseCSVToRecords_field_values[where headerLine = "''Course,Loss,Room Capacity''"
        and rows = "[''CS 1332, 12 ,'', '',abc,7'']"])
     (simp_all add: trim_def isWhitespace_def parseCSVLine_def)

section \<open>The round trip through the codec\<close>

lemma set_doubledQuotes: "set (doubledQuotes s) \<subseteq> insert quoteChar (set s)"
  by (induction s) (auto simp: doubledQuotes_def)

lemma quote_not_whitespace: "\<not> isWhitespace quoteChar" "\<not> isWhitespace commaChar"
  by (simp_all add: isWhitespace_def)

lemma cell_newline_free:
  assumes "roundTripValue numToString parseFloat k v"
  shows "newlineChar \<notin> set (emittedCell numToString v)"
proof (cases v)
  case (JStr s)
  with assms have "newlineChar \<notin> set s"
    by (simp add: roundTripValue_def plainText_def split: if_splits)
  with set_doubledQuotes[of s] JStr show ?thesis
    by (auto simp: emittedCell_def)
next
  case (JNum n)
  with assms show ?thesis
    by (simp add: roundTripValue_def plainNumber_def emittedCell_def split: if_splits)
qed (simp_all add: emittedCell_def)

lemma cell_cleanEdges:
  assumes "roundTripValue numToString parseFloat k v"
  shows "cleanEdges (emittedCell numToString v)"
proof (cases v)
  case (JStr s)
  with assms have "cleanEdges s"
    by (simp add: roundTripValue_def plainText_def cleanEdges_trim split: if_splits)
  with JStr show ?thesis
    by (simp add: emittedCell_def cleanEdges_def quote_not_whitespace)
next
  case (JNum n)
  with assms show ?thesis
    by (simp add: roundTripValue_def plainNumber_def emittedCell_def cleanEdges_trim split: if_splits)
qed (simp_all add: emittedCell_def cleanEdges_def)

lemma cell_plain:
  assumes "roundTripValue numToString parseFloat k v"
  shows "plainCell numToString v"
  using assms
  by (cases v) (simp_all add: roundTripValue_def plainNumber_def plainCell_def split: if_splits)

lemma trim_Nil: "trim [] = []"
  by (simp add: trim_def)

lemma cell_read_back:
  assumes "roundTripValue numToString parseFloat k v"
  shows "fieldValue parseFloat k (Some (trim (joinElem numToString v))) = v"
  using assms
  by (cases v)
     (auto simp: roundTripValue_def plainNumber_def plainText_def fieldValue_def joinElem_def
        trim_Nil split: if_splits)

lemma cleanEdges_joinWith_comma:
  assumes "2 \<le> length xs" and "\<forall>x\<in>set xs. cleanEdges x"
  shows "joinWith [commaChar] xs \<noteq> [] \<and> cleanEdges (joinWith [commaChar] xs)"
proof -
  from assms(1) have ne: "xs \<noteq> []" by auto
  then have "hd xs \<in> set xs" and "last xs \<in> set xs" by simp_all
  with assms(2) have h: "cleanEdges (hd xs)" and l: "cleanEdges (last xs)" by simp_all
  have "\<not> isWhitespace (hd (joinWith [commaChar] xs))"
    using h by (auto simp: hd_joinWith[OF assms(1)] cleanEdges_def quote_not_whitespace)
  moreover have "\<not> isWhitespace (last (joinWith [commaChar] xs))"
    using l by (auto simp: last_joinWith[OF assms(1)] cleanEdges_def quote_not_whitespace)
  moreover have "joinWith [commaChar] xs \<noteq> []"
    using assms(1) by (intro joinWith_two_nonempty) simp_all
  ultimately show ?thesis by (simp add: cleanEdges_def)
qed

lemma objGet_member: "distinct (map fst obj) \<Longrightarrow> (k, v) \<in> set obj \<Longrightarrow> objGet obj k = v"
  by (simp add: objGet_def)

lemma objGet_keys: "distinct (map fst obj) \<Longrightarrow> map (objGet obj) (map fst obj) = map snd obj"
  by (simp add: objGet_member)

lemma row_shape:
  assumes "2 \<le> length keys"
    and "\<forall>h\<in>set keys. roundTripValue numToString parseFloat h (objGet obj h)"
  shows "encodeRow numToString keys obj \<noteq> []"
    and "newlineChar \<notin> set (encodeRow numToString keys obj)"
    and "cleanEdges (encodeRow numToString keys obj)"
    and "parseCSVLine (encodeRow numToString keys obj)
           = map (\<lambda>h. joinElem numToString (objGet obj h)) keys"
proof -
  let ?cells = "map (\<lambda>h. emittedCell numToString (objGet obj h)) keys"
  have row: "encodeRow numToString keys obj = joinWith [commaChar] ?cells"
    by (simp add: encodeRow_emitted)
  have len: "2 \<le> length ?cells" using assms(1) by simp
  have clean: "\<forall>x\<in>set ?cells. cleanEdges x"
    using assms(2) by (auto intro: cell_cleanEdges)
  from cleanEdges_joinWith_comma[OF len clean] row
  show "encodeRow numToString keys obj \<noteq> []" and "cleanEdges (encodeRow numToString keys obj)"
    by simp_all
  have "\<forall>x\<in>set ?cells. newlineChar \<notin> set x"
    using assms(2) by (auto dest: cell_newline_free)
  with set_joinWith[of "[commaChar]" ?cells] row
  show "newlineChar \<notin> set (encodeRow numToString keys obj)"
    by auto
  have "keys \<noteq> []" using assms(1) by auto
  moreover have "\<forall>h\<in>set keys. plainCell numToString (objGet obj h)"
    using assms(2) by (auto intro: cell_plain)
  ultimately show "parseCSVLine (encodeRow numToString keys obj)
           = map (\<lambda>h. joinElem numToString (objGet obj h)) keys"
    by (rule parseCSVLine_encodeRow)
qed

lemma fieldNameOf_plainKey: "plainKey k \<Longrightarrow> fieldNameOf k = k"
  by (simp add: plainKey_def fieldNameOf_def)

lemma row_decode:
  assumes "distinct keys" and "\<forall>k\<in>set keys. plainKey k" and "objectKeys obj = keys"
    and "\<forall>h\<in>set keys. roundTripValue numToString parseFloat h (objGet obj h)"
  shows "decodeRow parseFloat keys (map (\<lambda>h. joinElem numToString (objGet obj h)) keys) = obj"
proof -
  let ?texts = "map (\<lambda>h. joinElem numToString (objGet obj h)) keys"
  have names: "map fieldNameOf keys = keys"
    using assms(2) by (simp add: map_idI fieldNameOf_plainKey)
  have fst: "map fst obj = keys"
    using assms(3) by (simp add: objectKeys_def)
  have len: "length obj = length keys"
    using fst by (metis length_map)
  have "decodeRow parseFloat keys ?texts
      = zip keys (map (\<lambda>j. columnValue parseFloat ?texts (keys ! j) j) [0..<length keys])"
    using decodeRow_distinct[of keys parseFloat ?texts] assms(1) names by simp
  also have "\<dots> = obj"
  proof (rule nth_equalityI)
    show "length (zip keys (map (\<lambda>j. columnValue parseFloat ?texts (keys ! j) j) [0..<length keys]))
            = length obj"
      using len by simp
  next
    fix j
    assume "j < length (zip keys (map (\<lambda>j. columnValue parseFloat ?texts (keys ! j) j) [0..<length keys]))"
    then have j: "j < length keys" by simp
    then have mem: "keys ! j \<in> set keys" by simp
    have kj: "keys ! j = fst (obj ! j)"
      using fst j len by (metis nth_map)
    have "(fst (obj ! j), snd (obj ! j)) \<in> set obj"
      using j len by simp
    then have get: "objGet obj (keys ! j) = snd (obj ! j)"
      using assms(1) fst kj by (simp add: objGet_member)
    have "columnValue parseFloat ?texts (keys ! j) j
        = fieldValue parseFloat (keys ! j) (Some (trim (joinElem numToString (objGet obj (keys ! j)))))"
      using j mem assms(2) by (simp add: columnValue_def fieldNameOf_plainKey)
    also have "\<dots> = objGet obj (keys ! j)"
      using assms(4) mem by (intro cell_read_back) simp
    finally have "columnValue parseFloat ?texts (keys ! j) j = snd (obj ! j)"
      using get by simp
    with j kj show "zip keys (map (\<lambda>j. columnValue parseFloat ?texts (keys ! j) j) [0..<length keys]) ! j
        = obj ! j"
      by (simp add: prod_eq_iff)
  qed
  finally show ?thesis .
qed

lemma header_shape:
  assumes "2 \<le> length keys" and "\<forall>k\<in>set keys. plainKey k"
  shows "joinWith [commaChar] keys \<noteq> []"
    and "cleanEdges (joinWith [commaChar] keys)"
    and "newlineChar \<notin> set (joinWith [commaChar] keys)"
    and "map trim (splitOn commaChar (joinWith [commaChar] keys)) = keys"
proof -
  have "\<forall>k\<in>set keys. cleanEdges k"
    using assms(2) by (simp add: plainKey_def cleanEdges_trim)
  from cleanEdges_joinWith_comma[OF assms(1) this]
  show "joinWith [commaChar] keys \<noteq> []" and "cleanEdges (joinWith [commaChar] keys)"
    by simp_all
  have "\<forall>k\<in>set keys. newlineChar \<notin> set k"
    using assms(2) by (simp add: plainKey_def)
  with set_joinWith[of "[commaChar]" keys]
  show "newlineChar \<notin> set (joinWith [commaChar] keys)"
    by auto
  have "keys \<noteq> []" using assms(1) by auto
  moreover have "\<forall>k\<in>set keys. commaChar \<notin> set k"
    using assms(2) by (simp add: plainKey_def)
  ultimately have "splitOn commaChar (joinWith [commaChar] keys) = keys"
    by (rule splitOn_joinWith)
  moreover have "map trim keys = keys"
    using assms(2) by (simp add: map_idI plainKey_def)
  ultimately show "map trim (splitOn commaChar (joinWith [commaChar] keys)) = keys"
    by simp
qed

lemma lines_cleanEdges:
  assumes "ls \<noteq> []" and "\<forall>l\<in>set ls. l \<noteq> [] \<and> cleanEdges l"
  shows "cleanEdges (joinWith sep ls)"
proof -
  have "hd ls \<in> set ls" and "last ls \<in> set ls"
    using assms(1) by simp_all
  with assms(2) have h: "hd ls \<noteq> []" "cleanEdges (hd ls)" and l: "last ls \<noteq> []" "cleanEdges (last ls)"
    by simp_all
  have "hd (joinWith sep ls) = hd (hd ls)"
    using assms(1) h(1) by (rule hd_joinWith_nonempty)
  moreover have "last (joinWith sep ls) = last (last ls)"
    using assms(1) l(1) by (rule last_joinWith_nonempty)
  ultimately show ?thesis
    using h l by (simp add: cleanEdges_def)
qed

lemma recordsToCSV_Cons:
  "recordsToCSV numToString (r # rs)
     = joinWith [newlineChar]
         (joinWith [commaChar] (objectKeys r) # map (encodeRow numToString (objectKeys r)) (r # rs))"
  by (simp add: recordsToCSV_def Let_def del: joinWith.simps)

lemma roundTrip_objects:
  assumes keys: "2 \<le> length keys" "distinct keys" "\<forall>k\<in>set keys. plainKey k"
    and recs: "\<forall>r\<in>set records. objectKeys r = keys \<and>
                 (\<forall>h\<in>set keys. roundTripValue numToString parseFloat h (objGet r h))"
  shows "parseCSVToRecords parseFloat (recordsToCSV numToString records) = records"
proof (cases records)
  case Nil
  then show ?thesis
    by (simp add: recordsToCSV_def parseCSVToRecords_def trim_Nil)
next
  case (Cons r rs)
  let ?header = "joinWith [commaChar] keys"
  let ?rows = "map (encodeRow numToString keys) records"
  let ?csv = "joinWith [newlineChar] (?header # ?rows)"
  have keys_r: "objectKeys r = keys"
    using recs Cons by simp
  have csv: "recordsToCSV numToString records = ?csv"
    unfolding Cons recordsToCSV_Cons keys_r ..
  have row: "\<forall>row\<in>set ?rows. row \<noteq> [] \<and> newlineChar \<notin> set row \<and> cleanEdges row \<and>
                length (parseCSVLine row) = length keys"
  proof
    fix row
    assume "row \<in> set ?rows"
    then obtain x where x: "x \<in> set records" and eq: "row = encodeRow numToString keys x"
      by auto
    from recs x have ok: "\<forall>h\<in>set keys. roundTripValue numToString parseFloat h (objGet x h)"
      by simp
    show "row \<noteq> [] \<and> newlineChar \<notin> set row \<and> cleanEdges row \<and>
                length (parseCSVLine row) = length keys"
      unfolding eq using row_shape[OF keys(1) ok] by simp
  qed
  have lines: "\<forall>l\<in>set (?header # ?rows). l \<noteq> [] \<and> cleanEdges l"
    using row header_shape(1,2)[OF keys(1,3)] by simp
  have "cleanEdges ?csv"
    using lines by (intro lines_cleanEdges) simp_all
  then have "trim ?csv = ?csv"
    by (rule trim_cleanEdges)
  moreover have "splitOn newlineChar ?csv = ?header # ?rows"
    using row header_shape(3)[OF keys(1,3)] by (intro splitOn_joinWith) simp_all
  ultimately have split: "splitOn newlineChar (trim ?csv) = ?header # ?rows"
    by simp
  have "parseCSVToRecords parseFloat ?csv
      = map (\<lambda>row. decodeRow parseFloat keys (parseCSVLine row))
          (filter (\<lambda>row. row \<noteq> [] \<and> length (parseCSVLine row) = length keys) ?rows)"
    using parseCSVToRecords_rows[OF split, of parseFloat] header_shape(4)[OF keys(1,3)]
    by simp
  also have "filter (\<lambda>row. row \<noteq> [] \<and> length (parseCSVLine row) = length keys) ?rows = ?rows"
    using row by (intro filter_True) simp
  also have "map (\<lambda>row. decodeRow parseFloat keys (parseCSVLine row)) ?rows = records"
  proof -
    have "\<forall>x\<in>set records.
            decodeRow parseFloat keys (parseCSVLine (encodeRow numToString keys x)) = x"
    proof
      fix x
      assume x: "x \<in> set records"
      with recs have ok: "objectKeys x = keys"
          "\<forall>h\<in>set keys. roundTripValue numToString parseFloat h (objGet x h)"
        by simp_all
      show "decodeRow parseFloat keys (parseCSVLine (encodeRow numToString keys x)) = x"
        using row_shape(4)[OF keys(1) ok(2)] row_decode[OF keys(2,3) ok] by simp
    qed
    then show ?thesis
      by (simp add: comp_def map_idI)
  qed
  finally show ?thesis
    using csv by simp
qed

lemma objectKeys_toObject: "objectKeys (toObject r) = enrollmentRecordKeys"
  by (simp add: objectKeys_def toObject_def enrollmentRecordKeys_def)

lemma enrollmentRecordKeys_plain:
  "2 \<le> length enrollmentRecordKeys" "distinct enrollmentRecordKeys"
  "\<forall>k\<in>set enrollmentRecordKeys. plainKey k"
  by (simp_all add: enrollmentRecordKeys_def plainKey_def trim_def isWhitespace_def headerMap_def
      inheritedKey_def)

lemma roundTripValue_number:
  "k \<in> set numericFields \<Longrightarrow> plainNumberOrNull numToString parseFloat x \<Longrightarrow>
   roundTripValue numToString parseFloat k (numberOrNull x)"
  by (cases x) (simp_all add: roundTripValue_def plainNumberOrNull_def numberOrNull_def)

lemma roundTripValue_text:
  "k \<notin> set numericFields \<Longrightarrow> plainText s \<Longrightarrow> roundTripValue numToString parseFloat k (JStr s)"
  by (simp add: roundTripValue_def)

lemma toObject_values:
  assumes "roundTripSafe numToString parseFloat r"
  shows "\<forall>h\<in>set enrollmentRecordKeys.
           roundTripValue numToString parseFloat h (objGet (toObject r) h)"
  using assms
  by (simp add: enrollmentRecordKeys_def roundTripSafe_def objGet_def toObject_def
      roundTripValue_number roundTripValue_text numericFields_def)

text \<open>
  C1, as the claim states it, fails: the decoder trims every cell, so a string field that
  starts with a space comes back without it.
\<close>

theorem roundTrip_leading_space_counterexample:
  "parseCSVToRecords parseFloat_int
       (recordsToCSV numToString_int [toObject (sampleRecord\<lparr>term_field := '' Fall 2024''\<rparr>)])
     \<noteq> [toObject (sampleRecord\<lparr>term_field := '' Fall 2024''\<rparr>)]
   \<and> parseCSVToRecords parseFloat_int
       (recordsToCSV numToString_int [toObject (sampleRecord\<lparr>term_field := '' Fall 2024''\<rparr>)])
     = [toObject sampleRecord]"
  by code_simp

text \<open>
  C1, amended. For every sequence of \<^verbatim>\<open>EnrollmentRecord\<close> values whose string fields hold no
  newline and no white space at either end, and whose numbers are plain (they print without
  comma, quote, newline or outer white space, and \<^verbatim>\<open>parseFloat\<close> reads the print back),
  decoding the text that \<open>recordsToCSV\<close> writes for the sequence gives back exactly the
  sequence. Numeric fields may be \<^verbatim>\<open>null\<close>, and string fields may hold commas and quotes.
\<close>

theorem roundTrip_enrollment_records:
  assumes "\<forall>r\<in>set records. roundTripSafe numToString parseFloat r"
  shows "parseCSVToRecords parseFloat (recordsToCSV numToString (map toObject records))
           = map toObject records"
proof (rule roundTrip_objects[OF enrollmentRecordKeys_plain])
  show "\<forall>obj\<in>set (map toObject records). objectKeys obj = enrollmentRecordKeys \<and>
          (\<forall>h\<in>set enrollmentRecordKeys. roundTripValue numToString parseFloat h (objGet obj h))"
    using assms by (auto simp: objectKeys_toObject toObject_values)
qed

theorem roundTrip_enrollment_records_witness:
  "parseCSVToRecords parseFloat_int (recordsToCSV numToString_int (map toObject [sampleRecord]))
     = map toObject [sampleRecord]"
proof -
  have n: "plainNumber numToString_int parseFloat_int (Finite 180)"
      "plainNumber numToString_int parseFloat_int (Finite 200)"
      "plainNumber numToString_int parseFloat_int (Finite 20)"
      "plainNumber numToString_int parseFloat_int (Finite 0)"
      "plainNumber numToString_int parseFloat_int (Finite 210)"
    by (simp_all add: plainNumber_def numToString_int_def natToString.simps digitChar_def
        parseFloat_int_def isDigit_def digitValue_def trim_def isWhitespace_def)
  have "roundTripSafe numToString_int parseFloat_int sampleRecord"
    by (simp add: roundTripSafe_def sampleRecord_def plainText_def plainNumberOrNull_def n
        trim_def isWhitespace_def)
  then show ?thesis
    using roundTrip_enrollment_records[of "[sampleRecord]" numToString_int parseFloat_int] by simp
qed

section \<open>The attempt budget of the poll loop\<close>

lemma isPollStep_callProgress:
  "filter isPollStep (callProgress onProgress p m trace) = filter isPollStep trace"
  by (simp add: callProgress_def)

lemma isStatusRead_callProgress:
  "filter isStatusRead (callProgress onProgress p m trace) = filter isStatusRead trace"
  by (simp add: callProgress_def)

lemma pollLoop_2_exhausted:
  "\<not> attempts < MAX_POLL_ATTEMPTS \<Longrightarrow>
   pollLoop_2 onProgress pollJobStatus jobId attempts trace = (trace, Inl timeoutMessage)"
  by (subst pollLoop_2.simps) simp

lemma pollLoop_2_continue:
  assumes "attempts < MAX_POLL_ATTEMPTS" and "pollJobStatus (attempts + 1) = Inr r"
    and "\<not> terminal (status_2 r)"
  shows "pollLoop_2 onProgress pollJobStatus jobId attempts trace
     = pollLoop_2 onProgress pollJobStatus jobId (attempts + 1)
         (callProgress onProgress (shownProgress_2 (attempts + 1) r)
            (orElse (message_2 r) (elapsedMessage (attempts + 1)))
            (trace @ [Sleep POLL_INTERVAL_MS, StatusRead jobId]))"
  using assms by (subst pollLoop_2.simps) (simp add: terminal_def)

lemma pollLoop_2_failed:
  assumes "attempts < MAX_POLL_ATTEMPTS" and "pollJobStatus (attempts + 1) = Inr r"
    and "status_2 r = Failed"
  shows "pollLoop_2 onProgress pollJobStatus jobId attempts trace
     = (callProgress onProgress (shownProgress_2 (attempts + 1) r)
            (orElse (message_2 r) (elapsedMessage (attempts + 1)))
            (trace @ [Sleep POLL_INTERVAL_MS, StatusRead jobId]),
        Inl (orElse (message_2 r) ''Job failed''))"
  using assms by (subst pollLoop_2.simps) simp

lemma pollLoop_2_never_terminal:
  assumes "\<forall>k. \<exists>r. pollJobStatus k = Inr r \<and> \<not> terminal (status_2 r)"
  shows "attempts \<le> MAX_POLL_ATTEMPTS \<Longrightarrow>
    snd (pollLoop_2 onProgress pollJobStatus jobId attempts trace) = Inl timeoutMessage \<and>
    filter isPollStep (fst (pollLoop_2 onProgress pollJobStatus jobId attempts trace))
      = filter isPollStep trace
        @ concat (replicate (MAX_POLL_ATTEMPTS - attempts) [Sleep POLL_INTERVAL_MS, StatusRead jobId])"
proof (induction "MAX_POLL_ATTEMPTS - attempts" arbitrary: attempts trace)
  case 0
  then have "\<not> attempts < MAX_POLL_ATTEMPTS" by simp
  with 0 show ?case by (simp add: pollLoop_2_exhausted)
next
  case (Suc n)
  then have lt: "attempts < MAX_POLL_ATTEMPTS" by simp
  from assms obtain r where r: "pollJobStatus (attempts + 1) = Inr r" "\<not> terminal (status_2 r)"
    by blast
  let ?trace1 = "callProgress onProgress (shownProgress_2 (attempts + 1) r)
            (orElse (message_2 r) (elapsedMessage (attempts + 1)))
            (trace @ [Sleep POLL_INTERVAL_MS, StatusRead jobId])"
  have step: "pollLoop_2 onProgress pollJobStatus jobId attempts trace
      = pollLoop_2 onProgress pollJobStatus jobId (attempts + 1) ?trace1"
    using lt r by (intro pollLoop_2_continue)
  have n: "n = MAX_POLL_ATTEMPTS - (attempts + 1)" and le: "attempts + 1 \<le> MAX_POLL_ATTEMPTS"
    using Suc.hyps(2) by simp_all
  have rep: "replicate (MAX_POLL_ATTEMPTS - attempts) [Sleep POLL_INTERVAL_MS, StatusRead jobId]
      = [Sleep POLL_INTERVAL_MS, StatusRead jobId]
        # replicate (MAX_POLL_ATTEMPTS - (attempts + 1)) [Sleep POLL_INTERVAL_MS, StatusRead jobId]"
    using Suc.hyps(2) n by (metis replicate_Suc)
  show ?case
    unfolding step using Suc.hyps(1)[OF n le, of ?trace1]
    by (simp add: isPollStep_callProgress rep)
qed

lemma pollLoop_2_reaches_failed:
  assumes "pollJobStatus k = Inr r" and "status_2 r = Failed" and "k \<le> MAX_POLL_ATTEMPTS"
    and "\<forall>i. 0 < i \<and> i < k \<longrightarrow> (\<exists>r'. pollJobStatus i = Inr r' \<and> \<not> terminal (status_2 r'))"
  shows "attempts < k \<Longrightarrow>
    snd (pollLoop_2 onProgress pollJobStatus jobId attempts trace)
      = Inl (orElse (message_2 r) ''Job failed'') \<and>
    length (filter isStatusRead (fst (pollLoop_2 onProgress pollJobStatus jobId attempts trace)))
      = length (filter isStatusRead trace) + (k - attempts)"
proof (induction "k - attempts" arbitrary: attempts trace)
  case 0
  then show ?case by simp
next
  case (Suc n)
  have lt: "attempts < MAX_POLL_ATTEMPTS"
    using Suc.prems assms(3) by simp
  show ?case
  proof (cases "attempts + 1 = k")
    case True
    with assms(1) have "pollJobStatus (attempts + 1) = Inr r" by simp
    with lt have "pollLoop_2 onProgress pollJobStatus jobId attempts trace
      = (callProgress onProgress (shownProgress_2 (attempts + 1) r)
            (orElse (message_2 r) (elapsedMessage (attempts + 1)))
            (trace @ [Sleep POLL_INTERVAL_MS, StatusRead jobId]),
        Inl (orElse (message_2 r) ''Job failed''))"
      using assms(2) by (intro pollLoop_2_failed)
    with True show ?thesis
      by (simp add: isStatusRead_callProgress)
  next
    case False
    with Suc.prems have below: "attempts + 1 < k" by simp
    with assms(4) obtain r' where r': "pollJobStatus (attempts + 1) = Inr r'"
        "\<not> terminal (status_2 r')"
      by (metis add_gr_0 zero_less_one)
    have n: "n = k - (attempts + 1)"
      using Suc.hyps(2) by simp
    have "pollLoop_2 onProgress pollJobStatus jobId attempts trace
      = pollLoop_2 onProgress pollJobStatus jobId (attempts + 1)
         (callProgress onProgress (shownProgress_2 (attempts + 1) r')
            (orElse (message_2 r') (elapsedMessage (attempts + 1)))
            (trace @ [Sleep POLL_INTERVAL_MS, StatusRead jobId]))"
      using lt r' by (intro pollLoop_2_continue)
    with Suc.hyps(1)[OF n below] below show ?thesis
      by (simp add: isStatusRead_callProgress)
  qed
qed

lemma fetchEnrollmentData_2_polls:
  assumes "submitEnrollmentJob request = Inr submitResponse"
    and "embedded_2 submitResponse = None"
    and "submit_jobId_2 submitResponse = Some jobId" and "jobId \<noteq> []"
  shows "fetchEnrollmentData_2 submitEnrollmentJob pollJobStatus request onProgress
     = pollLoop_2 onProgress pollJobStatus jobId 0
         (callProgress onProgress 5 ''Request submitted. Processing enrollment data...''
            (callProgress onProgress 0 ''Submitting request...'' [] @ [Submit]))"
  using assms by (simp add: fetchEnrollmentData_2_def)

lemma statusReads_of_pollSteps:
  "filter isStatusRead trace = filter isStatusRead (filter isPollStep trace)"
proof -
  have "\<And>e. isStatusRead e \<Longrightarrow> isPollStep e"
    by (case_tac e) simp_all
  then show ?thesis
    by (auto intro: filter_cong)
qed

lemma statusReads_replicate:
  "length (filter isStatusRead (concat (replicate n [Sleep ms, StatusRead jobId]))) = n"
  by (induction n) simp_all

lemma timeout_not_default: "timeoutMessage \<noteq> ''Job failed''"
  by (simp add: timeoutMessage_def)

lemma orElse_not_timeout:
  "x \<noteq> Some timeoutMessage \<Longrightarrow> orElse x ''Job failed'' \<noteq> timeoutMessage"
  using timeout_not_default by (cases x) (auto simp: orElse_def)

text \<open>
  C2, as the claim states it, fails in its last part: the failure error carries the message
  stored in the status response, so a job that failed with the text of the timeout message
  rejects with the same error as a timeout.
\<close>

theorem timeout_same_as_failure_counterexample:
  "snd (fetchEnrollmentData_2 jobAccepted_2 alwaysProcessing_2 () True)
     = snd (fetchEnrollmentData_2 jobAccepted_2 (failsWith_2 timeoutMessage) () True)"
proof -
  have poll: "\<forall>k. \<exists>r. alwaysProcessing_2 k = Inr r \<and> \<not> terminal (status_2 r)"
    by (simp add: alwaysProcessing_2_def terminal_def)
  have "snd (fetchEnrollmentData_2 jobAccepted_2 alwaysProcessing_2 () True) = Inl timeoutMessage"
    using pollLoop_2_never_terminal[OF poll, of 0]
    by (simp add: fetchEnrollmentData_2_def jobAccepted_2_def)
  moreover
  have "snd (fetchEnrollmentData_2 jobAccepted_2 (failsWith_2 timeoutMessage) () True)
      = Inl timeoutMessage"
    by (simp add: fetchEnrollmentData_2_def jobAccepted_2_def failsWith_2_def
        pollLoop_2_failed MAX_POLL_ATTEMPTS_def orElse_def timeoutMessage_def)
  ultimately show ?thesis by simp
qed

text \<open>
  C2, amended. If the submission returns a job id and every status read returns a
  non-terminal status, \<open>fetchEnrollmentData_2\<close> performs exactly \<open>MAX_POLL_ATTEMPTS\<close> status
  reads, each right after a sleep of \<open>POLL_INTERVAL_MS\<close>, and rejects with the timeout
  message. The error of a run in which a status read returns \<^verbatim>\<open>failed\<close> differs from it
  whenever the message stored in that response is not the timeout text itself; the default
  \<^verbatim>\<open>Job failed\<close> always differs.
\<close>

theorem timeout_after_max_attempts:
  assumes "submitEnrollmentJob request = Inr submitResponse"
    and "embedded_2 submitResponse = None"
    and "submit_jobId_2 submitResponse = Some jobId" and "jobId \<noteq> []"
    and "\<forall>k. \<exists>r. pollJobStatus k = Inr r \<and> \<not> terminal (status_2 r)"
    and "0 < k" and "k \<le> MAX_POLL_ATTEMPTS"
    and "\<forall>i. 0 < i \<and> i < k \<longrightarrow> (\<exists>r. failingJob i = Inr r \<and> \<not> terminal (status_2 r))"
    and "failingJob k = Inr failure" and "status_2 failure = Failed"
    and "message_2 failure \<noteq> Some timeoutMessage"
  shows "snd (fetchEnrollmentData_2 submitEnrollmentJob pollJobStatus request onProgress)
           = Inl timeoutMessage
       \<and> filter isPollStep
             (fst (fetchEnrollmentData_2 submitEnrollmentJob pollJobStatus request onProgress))
           = concat (replicate MAX_POLL_ATTEMPTS [Sleep POLL_INTERVAL_MS, StatusRead jobId])
       \<and> length (filter isStatusRead
             (fst (fetchEnrollmentData_2 submitEnrollmentJob pollJobStatus request onProgress)))
           = MAX_POLL_ATTEMPTS
       \<and> snd (fetchEnrollmentData_2 submitEnrollmentJob failingJob request onProgress)
           \<noteq> Inl timeoutMessage"
proof -
  let ?run = "fetchEnrollmentData_2 submitEnrollmentJob pollJobStatus request onProgress"
  have polls: "\<And>poll. fetchEnrollmentData_2 submitEnrollmentJob poll request onProgress
     = pollLoop_2 onProgress poll jobId 0
         (callProgress onProgress 5 ''Request submitted. Processing enrollment data...''
            (callProgress onProgress 0 ''Submitting request...'' [] @ [Submit]))"
    using assms(1-4) by (intro fetchEnrollmentData_2_polls)
  have run: "snd ?run = Inl timeoutMessage"
      "filter isPollStep (fst ?run)
         = concat (replicate MAX_POLL_ATTEMPTS [Sleep POLL_INTERVAL_MS, StatusRead jobId])"
    using pollLoop_2_never_terminal[OF assms(5), of 0 onProgress jobId]
    by (simp_all add: polls isPollStep_callProgress callProgress_def)
  have "length (filter isStatusRead (fst ?run)) = MAX_POLL_ATTEMPTS"
    by (subst statusReads_of_pollSteps) (simp only: run(2) statusReads_replicate)
  moreover
  have "snd (fetchEnrollmentData_2 submitEnrollmentJob failingJob request onProgress)
      = Inl (orElse (message_2 failure) ''Job failed'')"
    using pollLoop_2_reaches_failed[of failingJob k failure 0 onProgress jobId] assms(6-10)
    by (simp add: polls)
  ultimately show ?thesis
    using run orElse_not_timeout[OF assms(11)] by simp
qed

theorem timeout_after_max_attempts_witness:
  "snd (fetchEnrollmentData_2 jobAccepted_2 alwaysProcessing_2 () True) = Inl timeoutMessage
   \<and> filter isPollStep (fst (fetchEnrollmentData_2 jobAccepted_2 alwaysProcessing_2 () True))
       = concat (replicate MAX_POLL_ATTEMPTS [Sleep POLL_INTERVAL_MS, StatusRead ''job-1''])
   \<and> length (filter isStatusRead
         (fst (fetchEnrollmentData_2 jobAccepted_2 alwaysProcessing_2 () True)))
       = MAX_POLL_ATTEMPTS
   \<and> snd (fetchEnrollmentData_2 jobAccepted_2 (failsSecondRead_2 ''upstream unavailable'') () True)
       \<noteq> Inl timeoutMessage"
proof -
  let ?accepted = "\<lparr>submit_jobId_2 = Some ''job-1'', submit_status_2 = Pending,
      submit_message_2 = None, embedded_2 = (None :: unit option)\<rparr>"
  let ?failure = "\<lparr>jobId_2 = Some ''job-1'', status_2 = Failed, progress_2 = None,
      message_2 = Some ''upstream unavailable'', result_2 = (None :: unit option)\<rparr>"
  have submit: "jobAccepted_2 () = Inr ?accepted" "embedded_2 ?accepted = None"
      "submit_jobId_2 ?accepted = Some ''job-1''" "''job-1'' \<noteq> []"
    by (simp_all add: jobAccepted_2_def)
  have never: "\<forall>k. \<exists>r. alwaysProcessing_2 k = Inr r \<and> \<not> terminal (status_2 r)"
    by (simp add: alwaysProcessing_2_def terminal_def)
  have k: "0 < (2::nat)" "2 \<le> MAX_POLL_ATTEMPTS"
    by (simp_all add: MAX_POLL_ATTEMPTS_def)
  have before: "\<forall>i. 0 < i \<and> i < 2 \<longrightarrow>
      (\<exists>r. failsSecondRead_2 ''upstream unavailable'' i = Inr r \<and> \<not> terminal (status_2 r))"
    by (simp add: failsSecondRead_2_def terminal_def)
  have failed: "failsSecondRead_2 ''upstream unavailable'' 2 = Inr ?failure"
      "status_2 ?failure = Failed" "message_2 ?failure \<noteq> Some timeoutMessage"
    by (simp_all add: failsSecondRead_2_def timeoutMessage_def)
  show ?thesis
    using submit never k before failed
    by (intro timeout_after_max_attempts[where submitResponse = ?accepted and failure = ?failure
          and k = 2])
qed

section \<open>Failure and progress in the poll loop\<close>


lemma pollLoop_continue:
  assumes "attempts < MAX_POLL_ATTEMPTS" and "pollJobStatus (attempts + 1) = Inr r"
    and "\<not> terminal (status r)"
  shows "pollLoop parseFloat onProgress pollJobStatus fetchUrl jobId attempts trace
     = pollLoop parseFloat onProgress pollJobStatus fetchUrl jobId (attempts + 1)
         (callProgress onProgress (shownProgress r) (elapsedMessage (attempts + 1))
            (trace @ [Sleep POLL_INTERVAL_MS, StatusRead jobId]))"
  using assms by (subst pollLoop.simps) (simp add: terminal_def)

lemma pollLoop_failed:
  assumes "attempts < MAX_POLL_ATTEMPTS" and "pollJobStatus (attempts + 1) = Inr r"
    and "status r = Failed"
  shows "pollLoop parseFloat onProgress pollJobStatus fetchUrl jobId attempts trace
     = (callProgress onProgress (shownProgress r) (elapsedMessage (attempts + 1))
            (trace @ [Sleep POLL_INTERVAL_MS, StatusRead jobId]),
        Inl (orElse (error_message r) ''Job failed''))"
  using assms by (subst pollLoop.simps) simp



lemma pollLoop_reaches_failed:
  assumes "pollJobStatus k = Inr r" and "status r = Failed" and "k \<le> MAX_POLL_ATTEMPTS"
    and "\<forall>i. 0 < i \<and> i < k \<longrightarrow> (\<exists>r'. pollJobStatus i = Inr r' \<and> \<not> terminal (status r'))"
  shows "attempts < k \<Longrightarrow>
    snd (pollLoop parseFloat onProgress pollJobStatus fetchUrl jobId attempts trace)
      = Inl (orElse (error_message r) ''Job failed'') \<and>
    length (filter isStatusRead
        (fst (pollLoop parseFloat onProgress pollJobStatus fetchUrl jobId attempts trace)))
      = length (filter isStatusRead trace) + (k - attempts)"
proof (induction "k - attempts" arbitrary: attempts trace)
  case 0
  then show ?case by simp
next
  case (Suc n)
  have lt: "attempts < MAX_POLL_ATTEMPTS"
    using Suc.prems assms(3) by simp
  show ?case
  proof (cases "attempts + 1 = k")
    case True
    with assms(1) have "pollJobStatus (attempts + 1) = Inr r" by simp
    with lt have "pollLoop parseFloat onProgress pollJobStatus fetchUrl jobId attempts trace
      = (callProgress onProgress (shownProgress r) (elapsedMessage (attempts + 1))
            (trace @ [Sleep POLL_INTERVAL_MS, StatusRead jobId]),
        Inl (orElse (error_message r) ''Job failed''))"
      using assms(2) by (intro pollLoop_failed)
    with True show ?thesis
      by (simp add: isStatusRead_callProgress)
  next
    case False
    with Suc.prems have below: "attempts + 1 < k" by simp
    with assms(4) obtain r' where r': "pollJobStatus (attempts + 1) = Inr r'"
        "\<not> terminal (status r')"
      by (metis add_gr_0 zero_less_one)
    have n: "n = k - (attempts + 1)"
      using Suc.hyps(2) by simp
    have "pollLoop parseFloat onProgress pollJobStatus fetchUrl jobId attempts trace
      = pollLoop parseFloat onProgress pollJobStatus fetchUrl jobId (attempts + 1)
         (callProgress onProgress (shownProgress r') (elapsedMessage (attempts + 1))
            (trace @ [Sleep POLL_INTERVAL_MS, StatusRead jobId]))"
      using lt r' by (intro pollLoop_continue)
    with Suc.hyps(1)[OF n below] below show ?thesis
      by (simp add: isStatusRead_callProgress)
  qed
qed

lemma fetchEnrollmentData_polls:
  assumes "submitEnrollmentJob request = Inr submitResponse"
    and "submit_job_id submitResponse = Some jobId" and "jobId \<noteq> []"
  shows "fetchEnrollmentData parseFloat submitEnrollmentJob pollJobStatus fetchUrl request onProgress
     = pollLoop parseFloat onProgress pollJobStatus fetchUrl jobId 0
         (callProgress onProgress 5 ''Request submitted. Processing enrollment data...''
            (callProgress onProgress 0 ''Submitting request...'' [] @ [Submit]))"
  using assms by (simp add: fetchEnrollmentData_def)

lemma orElse_cases:
  "(\<forall>m. x = Some m \<and> m \<noteq> [] \<longrightarrow> orElse x d = m) \<and>
   (x = None \<or> x = Some [] \<longrightarrow> orElse x d = d)"
  by (cases x) (auto simp: orElse_def)

text \<open>
  C8. In both versions: when the submission returned a job id and a status read returns
  \<^verbatim>\<open>failed\<close> (the reads before it having returned non-terminal statuses, so that this read
  takes place), the client stops polling after that read and rejects with the error
  message stored in that response; it rejects with \<^verbatim>\<open>Job failed\<close> only when the response
  holds no message or an empty one.
\<close>

theorem failed_status_rejects_with_stored_message:
  assumes "submitEnrollmentJob request = Inr submitResponse"
    and "submit_job_id submitResponse = Some jobId" and "jobId \<noteq> []"
    and "0 < k" and "k \<le> MAX_POLL_ATTEMPTS"
    and "\<forall>i. 0 < i \<and> i < k \<longrightarrow> (\<exists>r. pollJobStatus i = Inr r \<and> \<not> terminal (status r))"
    and "pollJobStatus k = Inr failure" and "status failure = Failed"
    and "submitEnrollmentJobB requestB = Inr submitResponseB"
    and "embedded_2 submitResponseB = None"
    and "submit_jobId_2 submitResponseB = Some jobIdB" and "jobIdB \<noteq> []"
    and "0 < kB" and "kB \<le> MAX_POLL_ATTEMPTS"
    and "\<forall>i. 0 < i \<and> i < kB \<longrightarrow> (\<exists>r. pollJobStatusB i = Inr r \<and> \<not> terminal (status_2 r))"
    and "pollJobStatusB kB = Inr failureB" and "status_2 failureB = Failed"
  shows
    "(\<forall>m. error_message failure = Some m \<and> m \<noteq> [] \<longrightarrow>
        snd (fetchEnrollmentData parseFloat submitEnrollmentJob pollJobStatus fetchUrl request
               onProgress) = Inl m)
     \<and> (error_message failure = None \<or> error_message failure = Some [] \<longrightarrow>
        snd (fetchEnrollmentData parseFloat submitEnrollmentJob pollJobStatus fetchUrl request
               onProgress) = Inl ''Job failed'')
     \<and> length (filter isStatusRead
          (fst (fetchEnrollmentData parseFloat submitEnrollmentJob pollJobStatus fetchUrl request
                  onProgress))) = k
     \<and> (\<forall>m. message_2 failureB = Some m \<and> m \<noteq> [] \<longrightarrow>
        snd (fetchEnrollmentData_2 submitEnrollmentJobB pollJobStatusB requestB onProgress)
          = Inl m)
     \<and> (message_2 failureB = None \<or> message_2 failureB = Some [] \<longrightarrow>
        snd (fetchEnrollmentData_2 submitEnrollmentJobB pollJobStatusB requestB onProgress)
          = Inl ''Job failed'')
     \<and> length (filter isStatusRead
          (fst (fetchEnrollmentData_2 submitEnrollmentJobB pollJobStatusB requestB onProgress)))
         = kB"
proof -
  have run: "fetchEnrollmentData parseFloat submitEnrollmentJob pollJobStatus fetchUrl request
        onProgress
     = pollLoop parseFloat onProgress pollJobStatus fetchUrl jobId 0
         (callProgress onProgress 5 ''Request submitted. Processing enrollment data...''
            (callProgress onProgress 0 ''Submitting request...'' [] @ [Submit]))"
    using assms(1-3) by (intro fetchEnrollmentData_polls)
  have run_2: "fetchEnrollmentData_2 submitEnrollmentJobB pollJobStatusB requestB onProgress
     = pollLoop_2 onProgress pollJobStatusB jobIdB 0
         (callProgress onProgress 5 ''Request submitted. Processing enrollment data...''
            (callProgress onProgress 0 ''Submitting request...'' [] @ [Submit]))"
    using assms(9-12) by (intro fetchEnrollmentData_2_polls)
  have "snd (fetchEnrollmentData parseFloat submitEnrollmentJob pollJobStatus fetchUrl request
               onProgress) = Inl (orElse (error_message failure) ''Job failed'')
      \<and> length (filter isStatusRead
          (fst (fetchEnrollmentData parseFloat submitEnrollmentJob pollJobStatus fetchUrl request
                  onProgress))) = k"
    using pollLoop_reaches_failed[of pollJobStatus k failure 0 parseFloat onProgress fetchUrl jobId]
      assms(4-8)
    by (simp add: run isStatusRead_callProgress callProgress_def)
  moreover
  have "snd (fetchEnrollmentData_2 submitEnrollmentJobB pollJobStatusB requestB onProgress)
          = Inl (orElse (message_2 failureB) ''Job failed'')
      \<and> length (filter isStatusRead
          (fst (fetchEnrollmentData_2 submitEnrollmentJobB pollJobStatusB requestB onProgress)))
         = kB"
    using pollLoop_2_reaches_failed[of pollJobStatusB kB failureB 0 onProgress jobIdB]
      assms(13-17)
    by (simp add: run_2 isStatusRead_callProgress callProgress_def)
  ultimately show ?thesis
    using orElse_cases[of "error_message failure" "''Job failed''"]
      orElse_cases[of "message_2 failureB" "''Job failed''"]
    by simp
qed

theorem failed_status_rejects_with_stored_message_witness:
  "snd (fetchEnrollmentData parseFloat_int jobAccepted (failsSecondRead ''upstream unavailable'')
          noDownload () True) = Inl ''upstream unavailable''
   \<and> length (filter isStatusRead
        (fst (fetchEnrollmentData parseFloat_int jobAccepted
               (failsSecondRead ''upstream unavailable'') noDownload () True))) = 2
   \<and> snd (fetchEnrollmentData_2 jobAccepted_2 (failsSecondRead_2 []) () True) = Inl ''Job failed''
   \<and> length (filter isStatusRead
        (fst (fetchEnrollmentData_2 jobAccepted_2 (failsSecondRead_2 []) () True))) = 2"
proof -
  let ?accepted = "\<lparr>submit_job_id = Some ''job-1'', submit_status = Pending,
      submit_message = None\<rparr>"
  let ?acceptedB = "\<lparr>submit_jobId_2 = Some ''job-1'', submit_status_2 = Pending,
      submit_message_2 = None, embedded_2 = (None :: unit option)\<rparr>"
  let ?failure = "\<lparr>job_id = Some ''job-1'', status = Failed, progress = None, csv_data = None,
      download_url = None, error_message = Some ''upstream unavailable''\<rparr>"
  let ?failureB = "\<lparr>jobId_2 = Some ''job-1'', status_2 = Failed, progress_2 = None,
      message_2 = Some [], result_2 = (None :: unit option)\<rparr>"
  have submit: "jobAccepted () = Inr ?accepted" "submit_job_id ?accepted = Some ''job-1''"
      "''job-1'' \<noteq> []"
    by (simp_all add: jobAccepted_def)
  have k: "0 < (2::nat)" "2 \<le> MAX_POLL_ATTEMPTS"
    by (simp_all add: MAX_POLL_ATTEMPTS_def)
  have before: "\<forall>i. 0 < i \<and> i < 2 \<longrightarrow>
      (\<exists>r. failsSecondRead ''upstream unavailable'' i = Inr r \<and> \<not> terminal (status r))"
    by (simp add: failsSecondRead_def terminal_def)
  have failed: "failsSecondRead ''upstream unavailable'' 2 = Inr ?failure" "status ?failure = Failed"
    by (simp_all add: failsSecondRead_def)
  have submit_2: "jobAccepted_2 () = Inr ?acceptedB" "embedded_2 ?acceptedB = None"
      "submit_jobId_2 ?acceptedB = Some ''job-1''"
    by (simp_all add: jobAccepted_2_def)
  have before_2: "\<forall>i. 0 < i \<and> i < 2 \<longrightarrow>
      (\<exists>r. failsSecondRead_2 [] i = Inr r \<and> \<not> terminal (status_2 r))"
    by (simp add: failsSecondRead_2_def terminal_def)
  have failed_2: "failsSecondRead_2 [] 2 = Inr ?failureB" "status_2 ?failureB = Failed"
    by (simp_all add: failsSecondRead_2_def)
  from failed_status_rejects_with_stored_message[where submitEnrollmentJob = jobAccepted
        and request = "()" and submitResponse = ?accepted and jobId = "''job-1''"
        and pollJobStatus = "failsSecondRead ''upstream unavailable''" and failure = ?failure
        and k = 2 and submitEnrollmentJobB = jobAccepted_2 and requestB = "()"
        and submitResponseB = ?acceptedB and jobIdB = "''job-1''"
        and pollJobStatusB = "failsSecondRead_2 []" and failureB = ?failureB and kB = 2
        and parseFloat = parseFloat_int and fetchUrl = noDownload and onProgress = True,
        OF submit k before failed submit_2 submit(3) k before_2 failed_2]
  show ?thesis by simp
qed










section \<open>Queue configuration\<close>

text \<open>
  C9. For every stack configuration, the processing queue is declared with a dead-letter
  queue (the construct \<^verbatim>\<open>ProcessingDeadLetterQueue\<close>) and \<^verbatim>\<open>maxReceiveCount\<close> 3, and the
  Worker function has exactly one event source, on the processing queue, with batch size 1.
\<close>

theorem queue_redelivery_and_batch_size:
  "map_option maxReceiveCount (deadLetterQueue (createProcessingQueue config)) = Some 3
   \<and> map_option (constructId \<circ> queue) (deadLetterQueue (createProcessingQueue config))
       = Some ''ProcessingDeadLetterQueue''
   \<and> map batchSize
         (eventSources (createDataProcessingFunction (createProcessingQueue config) config)) = [1]
   \<and> map eventSourceQueue
         (eventSources (createDataProcessingFunction (createProcessingQueue config) config))
       = [createProcessingQueue config]"
  by (simp add: createProcessingQueue_def createDataProcessingFunction_def)

end
